theory Spec2Isabelle
  imports Main
begin

section \<open>Strings and regular expressions of the host language\<close>

text \<open>
  The scripts are TypeScript. A string is modelled as a \<^typ>\<open>string\<close>, one \<^typ>\<open>char\<close> per
  UTF-16 code unit below 256 (the Latin-1 range); code units above 255 are not represented.
  On that range \<open>toLowerCase\<close> maps \<open>A-Z\<close> and the accented capitals \<open>0xC0-0xDE\<close>
  (without the multiplication sign \<open>0xD7\<close>) to the letter 32 code units further, and the
  white space of \<open>trim\<close> and of the class \<open>\s\<close> is tab, line feed, vertical tab, form feed,
  carriage return, space and the no-break space \<open>0xA0\<close>.
\<close>

definition backslash :: char where
  "backslash = CHR 0x5C"

definition lowerChar :: "char \<Rightarrow> char" where
  "lowerChar c =
     (let n = of_char c :: nat
      in if (65 \<le> n \<and> n \<le> 90) \<or> (192 \<le> n \<and> n \<le> 222 \<and> n \<noteq> 215)
         then char_of (n + 32) else c)"

definition toLowerCase :: "string \<Rightarrow> string" where
  "toLowerCase s = map lowerChar s"

definition isSpace :: "char \<Rightarrow> bool" where
  "isSpace c = (of_char c \<in> {9, 10, 11, 12, 13, 32, 160 :: nat})"

definition isWordChar :: "char \<Rightarrow> bool" where
  "isWordChar c =
     (let n = of_char c :: nat
      in (48 \<le> n \<and> n \<le> 57) \<or> (65 \<le> n \<and> n \<le> 90) \<or> (97 \<le> n \<and> n \<le> 122) \<or> n = 95)"

definition isLineTerminator :: "char \<Rightarrow> bool" where
  "isLineTerminator c = (of_char c \<in> {10, 13 :: nat})"

definition trim :: "string \<Rightarrow> string" where
  "trim s = rev (dropWhile isSpace (rev (dropWhile isSpace s)))"

fun startsWith :: "string \<Rightarrow> string \<Rightarrow> bool" where
  "startsWith s [] = True"
| "startsWith [] (p # ps) = False"
| "startsWith (c # cs) (p # ps) = (c = p \<and> startsWith cs ps)"

fun includesStr :: "string \<Rightarrow> string \<Rightarrow> bool" where
  "includesStr [] t = (t = [])"
| "includesStr (c # cs) t = (startsWith (c # cs) t \<or> includesStr cs t)"

text \<open>\<open>xs.join(sep)\<close>\<close>

fun join :: "string \<Rightarrow> string list \<Rightarrow> string" where
  "join sep [] = []"
| "join sep [x] = x"
| "join sep (x # y # ys) = x @ sep @ join sep (y # ys)"

subsection \<open>A backtracking matcher for the regular expressions the scripts use\<close>

text \<open>
  The fragment of the host's regular expressions that occurs in the scripts: a literal
  character, the dot, the class \<open>\s\<close>, sequence, the greedy quantifiers \<open>*\<close>, \<open>+\<close>, \<open>?\<close> and
  \<open>{n}\<close>, the anchors \<open>^\<close> and \<open>$\<close> (no multi-line flag is ever set) and the word boundary
  \<open>\b\<close>. A position is the character just before it (none at the start of the input) and the
  input that remains. \<open>rx_match\<close> lists the positions at which a match that starts at the given
  position can end, in the backtracking order of the host: a greedy quantifier tries more
  repetitions first, and an iteration that consumes nothing is rejected.
\<close>

datatype rx =
    Chr char
  | AnyChar
  | Space
  | Seq rx rx
  | Star rx
  | Plus rx
  | Opt rx
  | Times nat rx
  | Bol
  | Eol
  | WordB

type_synonym pos = "char option \<times> string"

fun iter :: "(pos \<Rightarrow> pos list) \<Rightarrow> nat \<Rightarrow> pos \<Rightarrow> pos list" where
  "iter f 0 st = [st]"
| "iter f (Suc n) st =
     concat (map (iter f n) (filter (\<lambda>st'. length (snd st') < length (snd st)) (f st))) @ [st]"

fun times :: "(pos \<Rightarrow> pos list) \<Rightarrow> nat \<Rightarrow> pos \<Rightarrow> pos list" where
  "times f 0 st = [st]"
| "times f (Suc n) st = concat (map (times f n) (f st))"

definition one :: "(char \<Rightarrow> bool) \<Rightarrow> pos \<Rightarrow> pos list" where
  "one P st = (case snd st of [] \<Rightarrow> [] | x # xs \<Rightarrow> if P x then [(Some x, xs)] else [])"

definition atWordBoundary :: "pos \<Rightarrow> bool" where
  "atWordBoundary st =
     ((case fst st of None \<Rightarrow> False | Some c \<Rightarrow> isWordChar c)
      \<noteq> (case snd st of [] \<Rightarrow> False | x # _ \<Rightarrow> isWordChar x))"

text \<open>The second argument is the flag \<open>i\<close> (ignore case).\<close>

fun rx_match :: "rx \<Rightarrow> bool \<Rightarrow> pos \<Rightarrow> pos list" where
  "rx_match (Chr c) ci st = one (\<lambda>x. if ci then lowerChar x = lowerChar c else x = c) st"
| "rx_match AnyChar ci st = one (\<lambda>x. \<not> isLineTerminator x) st"
| "rx_match Space ci st = one isSpace st"
| "rx_match (Seq a b) ci st = concat (map (rx_match b ci) (rx_match a ci st))"
| "rx_match (Star r) ci st = iter (rx_match r ci) (length (snd st)) st"
| "rx_match (Plus r) ci st =
     concat (map (\<lambda>st'. iter (rx_match r ci) (length (snd st')) st') (rx_match r ci st))"
| "rx_match (Opt r) ci st = rx_match r ci st @ [st]"
| "rx_match (Times n r) ci st = times (rx_match r ci) n st"
| "rx_match Bol ci st = (if fst st = None then [st] else [])"
| "rx_match Eol ci st = (if snd st = [] then [st] else [])"
| "rx_match WordB ci st = (if atWordBoundary st then [st] else [])"

text \<open>A literal string, as a sequence of its characters.\<close>

fun lit :: "string \<Rightarrow> rx \<Rightarrow> rx" where
  "lit [] k = k"
| "lit (c # cs) k = Seq (Chr c) (lit cs k)"

text \<open>\<open>re.test(s)\<close> for an expression without the flag \<open>g\<close>: a match may start anywhere.\<close>

fun test_from :: "rx \<Rightarrow> bool \<Rightarrow> char option \<Rightarrow> string \<Rightarrow> bool" where
  "test_from r ci p [] = (rx_match r ci (p, []) \<noteq> [])"
| "test_from r ci p (c # cs) = (rx_match r ci (p, c # cs) \<noteq> [] \<or> test_from r ci (Some c) cs)"

definition rx_test :: "rx \<Rightarrow> bool \<Rightarrow> string \<Rightarrow> bool" where
  "rx_test r ci s = test_from r ci None s"

text \<open>
  \<open>s.replace(re, rep)\<close> for an expression with the flag \<open>g\<close> and a replacement without
  \<open>$\<close>: every match, found from left to right, is replaced; after an empty match the scan
  moves one character on.
\<close>

function replace_from :: "rx \<Rightarrow> bool \<Rightarrow> string \<Rightarrow> char option \<Rightarrow> string \<Rightarrow> string" where
  "replace_from r ci rep p [] = (if rx_match r ci (p, []) \<noteq> [] then rep else [])"
| "replace_from r ci rep p (c # cs) =
     (case rx_match r ci (p, c # cs) of
        [] \<Rightarrow> c # replace_from r ci rep (Some c) cs
      | (p', s') # _ \<Rightarrow>
          if length s' < length (c # cs) then rep @ replace_from r ci rep p' s'
          else rep @ c # replace_from r ci rep (Some c) cs)"
  by pat_completeness auto
termination
  by (relation "measure (\<lambda>(r, ci, rep, p, s). length s)") auto

definition replaceAll :: "rx \<Rightarrow> bool \<Rightarrow> string \<Rightarrow> string \<Rightarrow> string" where
  "replaceAll r ci rep s = replace_from r ci rep None s"

section \<open>Reaction names\<close>

text \<open>\<open>name.trim().toLowerCase()\<close>\<close>

definition normalizeReactionName :: "string \<Rightarrow> string" where
  "normalizeReactionName name = toLowerCase (trim name)"

text \<open>
  The source writes the two expressions as the literals \<open>/::skin-tone-\\d+/g\<close> and
  \<open>/:skin-tone-\\d+/g\<close>. In a regular expression literal \<open>\\\<close> is an escaped backslash, so
  each expression is the text \<open>skin-tone-\<close> after its colons, then a backslash character, then
  the letter \<open>d\<close> one or more times.
\<close>

definition skinTone2 :: rx where
  "skinTone2 = lit ''::skin-tone-'' (Seq (Chr backslash) (Plus (Chr CHR ''d'')))"

definition skinTone1 :: rx where
  "skinTone1 = lit '':skin-tone-'' (Seq (Chr backslash) (Plus (Chr CHR ''d'')))"

definition canonicalizeReactionName :: "string \<Rightarrow> string" where
  "canonicalizeReactionName name =
     replaceAll skinTone1 False [] (replaceAll skinTone2 False [] name)"

section \<open>Values of unknown shape\<close>

text \<open>
  What the remote service returns is data of the host's type \<open>unknown\<close>: \<open>null\<close>,
  \<open>undefined\<close>, a boolean, a number, a string, an array, or an object whose properties are
  kept in their enumeration order.
\<close>

datatype json =
    JNull
  | JUndefined
  | JBool bool
  | JNum int
  | JStr string
  | JArr "json list"
  | JObj "(string \<times> json) list"

text \<open>Property access \<open>v.k\<close>; only objects carry the properties the scripts read.\<close>

fun getProp :: "json \<Rightarrow> string \<Rightarrow> json" where
  "getProp (JObj fs) k = (case map_of fs k of Some v \<Rightarrow> v | None \<Rightarrow> JUndefined)"
| "getProp v k = JUndefined"

text \<open>The truthiness \<open>!v\<close> tests.\<close>

fun truthy :: "json \<Rightarrow> bool" where
  "truthy JNull = False"
| "truthy JUndefined = False"
| "truthy (JBool b) = b"
| "truthy (JNum n) = (n \<noteq> 0)"
| "truthy (JStr s) = (s \<noteq> [])"
| "truthy (JArr vs) = True"
| "truthy (JObj fs) = True"

subsection \<open>collectStrings\<close>

text \<open>
  \<open>collectStrings(value, out, {maxDepth, maxStrings})\<close> appends to \<open>out\<close>; the model returns
  the new \<open>out\<close>. The loop over an array has no exit of its own, the loop over the values of
  an object leaves as soon as \<open>out\<close> is full.
\<close>

fun collectStrings :: "json \<Rightarrow> string list \<Rightarrow> nat \<Rightarrow> nat \<Rightarrow> string list"
  and collectArray :: "json list \<Rightarrow> string list \<Rightarrow> nat \<Rightarrow> nat \<Rightarrow> string list"
  and collectValues :: "(string \<times> json) list \<Rightarrow> string list \<Rightarrow> nat \<Rightarrow> nat \<Rightarrow> string list"
where
  "collectStrings v out maxDepth maxStrings =
     (if length out \<ge> maxStrings then out
      else case v of
        JNull \<Rightarrow> out
      | JUndefined \<Rightarrow> out
      | JStr s \<Rightarrow> out @ [s]
      | JBool b \<Rightarrow> out
      | JNum n \<Rightarrow> out
      | JArr vs \<Rightarrow> if maxDepth \<le> 0 then out else collectArray vs out (maxDepth - 1) maxStrings
      | JObj fs \<Rightarrow> if maxDepth \<le> 0 then out else collectValues fs out (maxDepth - 1) maxStrings)"
| "collectArray [] out d maxStrings = out"
| "collectArray (v # vs) out d maxStrings =
     collectArray vs (collectStrings v out d maxStrings) d maxStrings"
| "collectValues [] out d maxStrings = out"
| "collectValues (kv # fs) out d maxStrings =
     (let out' = collectStrings (snd kv) out d maxStrings
      in if length out' \<ge> maxStrings then out' else collectValues fs out' d maxStrings)"

definition messageContentStrings :: "json \<Rightarrow> string list" where
  "messageContentStrings message = collectStrings message [] 8 600"

text \<open>
  The part of a value that lies at most \<open>d\<close> levels below its root: arrays and objects at
  level \<open>d\<close> are emptied.
\<close>

fun cutBelow :: "nat \<Rightarrow> json \<Rightarrow> json" where
  "cutBelow d (JArr vs) = (case d of 0 \<Rightarrow> JArr [] | Suc n \<Rightarrow> JArr (map (cutBelow n) vs))"
| "cutBelow d (JObj fs) =
     (case d of 0 \<Rightarrow> JObj [] | Suc n \<Rightarrow> JObj (map (\<lambda>kv. (fst kv, cutBelow n (snd kv))) fs))"
| "cutBelow d v = v"

section \<open>Skip rules and the reaction filter\<close>

text \<open>
  A compiled expression that comes from the configuration (\<open>new RegExp(text, "i")\<close>) is
  kept as its \<open>test\<close> function.
\<close>

record SkipConfig =
  skipUserId :: string
  skipUserAliases :: "string list"
  skipMessageRegex :: "(string \<Rightarrow> bool) option"
  skipMessageContains :: "string list"
  debugSkip :: bool

record ReactionFilterConfig =
  blacklistExact :: "string set"
  blacklistContains :: "string list"
  blacklistRegex :: "(string \<Rightarrow> bool) option"
  debug :: bool

definition isReactionBlocked :: "string \<Rightarrow> ReactionFilterConfig \<Rightarrow> bool" where
  "isReactionBlocked name cfg =
     (let normalized = normalizeReactionName name
      in if normalized \<in> blacklistExact cfg then True
         else if list_ex (\<lambda>s. includesStr normalized s) (blacklistContains cfg) then True
         else if (case blacklistRegex cfg of None \<Rightarrow> False | Some re \<Rightarrow> re normalized) then True
         else False)"

text \<open>
  \<open>new RegExp(`from\\s*:\\s*<@${escapeRegexLiteral(userId)}>`, "i")\<close>: in a template string
  \<open>\\s\<close> is the class \<open>\s\<close>, and \<open>escapeRegexLiteral\<close> makes every character of the
  identifier stand for itself.
\<close>

definition fromLineMention :: "string \<Rightarrow> rx" where
  "fromLineMention userId =
     lit ''from'' (Seq (Star Space) (Seq (Chr CHR '':'') (Seq (Star Space)
       (lit ''<@'' (lit userId (Chr CHR ''>''))))))"

definition matchesWorkflowFromLineMention :: "string list \<Rightarrow> string \<Rightarrow> bool" where
  "matchesWorkflowFromLineMention strings userId =
     list_ex (\<lambda>s. rx_test (fromLineMention userId) True s) strings"

text \<open>\<open>new RegExp(`from\\s*:\\s*@?\\s*${escapeRegexLiteral(alias)}\\b`, "i")\<close>\<close>

definition fromLineAlias :: "string \<Rightarrow> rx" where
  "fromLineAlias alias =
     lit ''from'' (Seq (Star Space) (Seq (Chr CHR '':'') (Seq (Star Space)
       (Seq (Opt (Chr CHR ''@'')) (Seq (Star Space) (lit alias WordB))))))"

fun matchesWorkflowFromLine :: "string list \<Rightarrow> string list \<Rightarrow> bool" where
  "matchesWorkflowFromLine strings [] = False"
| "matchesWorkflowFromLine strings (alias # aliases) =
     (if list_ex (\<lambda>s. rx_test (fromLineAlias alias) True s) strings then True
      else matchesWorkflowFromLine strings aliases)"

text \<open>
  \<open>normalizeForSubstringMatch\<close>: the two typographic quotes of the first replacement lie
  above code unit 255, so that replacement changes nothing here. The second expression is
  the literal \<open>/\\s+/g\<close>: a backslash character and then the letter \<open>s\<close> one or more times.
\<close>

definition backslashEsses :: rx where
  "backslashEsses = Seq (Chr backslash) (Plus (Chr CHR ''s''))"

definition normalizeForSubstringMatch :: "string \<Rightarrow> string" where
  "normalizeForSubstringMatch input = trim (replaceAll backslashEsses False '' '' (toLowerCase input))"

definition newline :: char where
  "newline = CHR 0x0A"

definition isStandupReminderMessage :: "string list \<Rightarrow> bool" where
  "isStandupReminderMessage strings =
     (let haystack = normalizeForSubstringMatch (join [newline] strings)
      in if includesStr haystack ''daily stand-up meeting reminder'' then True
         else if includesStr haystack ''don't forget to post your update in thread'' then True
         else if includesStr haystack ''dont forget to post your update in thread'' then True
         else if includesStr haystack ''fill form from slack shortcut'' then True
         else False)"

fun skipContains :: "string list \<Rightarrow> string list \<Rightarrow> bool" where
  "skipContains lowerStrings [] = False"
| "skipContains lowerStrings (c # cs) =
     (if list_ex (\<lambda>s. includesStr s (toLowerCase c)) lowerStrings then True
      else skipContains lowerStrings cs)"

record SkipResult =
  skip :: bool
  reason :: "string option"

definition shouldSkipMessage :: "json \<Rightarrow> SkipConfig \<Rightarrow> SkipResult" where
  "shouldSkipMessage message cfg =
     (if (case message of JObj fs \<Rightarrow> getProp message ''user'' = JStr (skipUserId cfg) | _ \<Rightarrow> False)
      then \<lparr>skip = True, reason = Some ''author_user_id''\<rparr>
      else let strings = messageContentStrings message in
        if isStandupReminderMessage strings
        then \<lparr>skip = True, reason = Some ''standup_reminder''\<rparr>
        else if matchesWorkflowFromLineMention strings (skipUserId cfg)
        then \<lparr>skip = True, reason = Some ''workflow_from_line_user_id''\<rparr>
        else if matchesWorkflowFromLine strings (skipUserAliases cfg)
        then \<lparr>skip = True, reason = Some ''workflow_from_line_alias''\<rparr>
        else if skipMessageContains cfg \<noteq> []
                \<and> skipContains (map toLowerCase strings) (skipMessageContains cfg)
        then \<lparr>skip = True, reason = Some ''skip_contains''\<rparr>
        else if (case skipMessageRegex cfg of None \<Rightarrow> False | Some re \<Rightarrow> list_ex re strings)
        then \<lparr>skip = True, reason = Some ''skip_regex''\<rparr>
        else \<lparr>skip = False, reason = None\<rparr>)"

section \<open>The remote service and what a run does\<close>

text \<open>
  A remote call fails with an error or succeeds with a value. \<open>getRetryAfterSeconds\<close> sorts
  the errors: one that carries a retry-after duration is a rate limit, any other is kept as
  the code in its \<open>data.error\<close>, if it has one. What the service answers to a call and to
  its repetitions is a value, an error of the second kind, a rate limit (with its seconds)
  followed by the answers to the repetitions, or rate limits for ever.
\<close>

datatype thrown = Thrown (errorCode: "string option")

datatype 'a answers =
    Succeeds 'a
  | Fails thrown
  | RateLimited nat "'a answers"
  | RateLimitedForEver

datatype 'a outcome = Returned 'a | Threw thrown | NoReturn

text \<open>
  \<open>withRateLimitRetry(fn)\<close> is \<open>while (true)\<close> around \<open>fn\<close>: it returns what \<open>fn\<close>
  returns, throws on an error without a retry-after duration, and sleeps and calls \<open>fn\<close> again
  after a rate limit. Under rate limits for ever it does not return.
\<close>

fun withRateLimitRetry :: "'a answers \<Rightarrow> 'a outcome" where
  "withRateLimitRetry (Succeeds v) = Returned v"
| "withRateLimitRetry (Fails err) = Threw err"
| "withRateLimitRetry (RateLimited retryAfter again) = withRateLimitRetry again"
| "withRateLimitRetry RateLimitedForEver = NoReturn"

text \<open>
  What a run does is recorded as a trace: the remote calls it makes and the console lines
  the properties speak about, each with the values it is built from.
\<close>

datatype event =
    ReactionsGet string string
  | ReactionsAdd string string string
  | ConversationsHistory string "string option" "string option" "string option"
  | ConversationsReplies string string "string option"
  | Ack
  | LogSkip string string string
  | LogBlocklist string string string
  | LogBlocklistDefault string string string
  | LogDryRun string string string
  | LogDryRunDefault string string string
  | LogAdded string string string
  | LogAddedDefault string string string
  | LogTooManyReactions string string string
  | LogFailedToAdd string string string

text \<open>
  A page of messages: \<open>res.messages ?? []\<close> and \<open>res.response_metadata?.next_cursor\<close>.
\<close>

record page =
  messages :: "json list"
  next_cursor :: "string option"

text \<open>
  The service answers a call knowing everything the run did before (the trace so far).
  \<open>reactions_get\<close> answers with \<open>res.message\<close>.
\<close>

record env =
  reactions_get :: "event list \<Rightarrow> string \<Rightarrow> string \<Rightarrow> json answers"
  reactions_add :: "event list \<Rightarrow> string \<Rightarrow> string \<Rightarrow> string \<Rightarrow> unit answers"
  conversations_history ::
    "event list \<Rightarrow> string \<Rightarrow> string option \<Rightarrow> string option \<Rightarrow> string option \<Rightarrow> page answers"
  conversations_replies ::
    "event list \<Rightarrow> string \<Rightarrow> string \<Rightarrow> string option \<Rightarrow> page answers"

text \<open>
  An add-action is a call of \<open>reactions.add\<close> or, in a dry run, the line that stands for it.
\<close>

fun addName :: "event \<Rightarrow> string option" where
  "addName (ReactionsAdd name channel ts) = Some name"
| "addName (LogDryRun name channel ts) = Some name"
| "addName (LogDryRunDefault name channel ts) = Some name"
| "addName e = None"

fun addActions :: "event list \<Rightarrow> string list" where
  "addActions [] = []"
| "addActions (e # es) = (case addName e of None \<Rightarrow> addActions es | Some n \<Rightarrow> n # addActions es)"

text \<open>The add-actions a step emits: those of the trace after it that were not there before.\<close>

definition newAdds :: "event list \<Rightarrow> event list \<Rightarrow> string list" where
  "newAdds before after = addActions (drop (length before) after)"

subsection \<open>Reaction entries of a fetched message\<close>

text \<open>
  The scripts give the fetched message the type
  \<open>{ user?: string; text?: string; reactions?: Array<{ name: string; users?: string[] }> }\<close>;
  the readers below are exact on the values of that type.
\<close>

definition reactionsOf :: "json \<Rightarrow> json list" where
  "reactionsOf message = (case getProp message ''reactions'' of JArr rs \<Rightarrow> rs | _ \<Rightarrow> [])"

definition reactionName :: "json \<Rightarrow> string" where
  "reactionName reaction = (case getProp reaction ''name'' of JStr s \<Rightarrow> s | _ \<Rightarrow> [])"

definition usersInclude :: "json \<Rightarrow> string \<Rightarrow> bool" where
  "usersInclude reaction uid =
     (case getProp reaction ''users'' of JArr us \<Rightarrow> JStr uid \<in> set us | _ \<Rightarrow> False)"

text \<open>A \<open>Set<string>\<close> keeps its elements in the order they were first added.\<close>

definition setAdd :: "string \<Rightarrow> string list \<Rightarrow> string list" where
  "setAdd x xs = (if x \<in> set xs then xs else xs @ [x])"

record MirrorResult =
  added :: nat
  skippedAlreadyReacted :: nat
  skippedOwnMessage :: nat
  skippedBlacklisted :: nat

record DefaultResult = MirrorResult +
  skippedHasReactions :: nat

subsection \<open>mirrorReactionsForMessage\<close>

text \<open>
  The first loop of \<open>mirrorReactionsForMessage\<close>: the pair is \<open>canonicalHasAuthedReaction\<close> and
  \<open>canonicals\<close>.
\<close>

fun collectCanonicals ::
  "json list \<Rightarrow> string \<Rightarrow> string list \<times> string list \<Rightarrow> string list \<times> string list" where
  "collectCanonicals [] authedUserId sets = sets"
| "collectCanonicals (reaction # rest) authedUserId sets =
     (let name = reactionName reaction in
      if name = [] then collectCanonicals rest authedUserId sets
      else
        let canonical = canonicalizeReactionName name;
            canonicals = setAdd canonical (snd sets);
            canonicalHasAuthedReaction =
              (if usersInclude reaction authedUserId then setAdd canonical (fst sets) else fst sets)
        in collectCanonicals rest authedUserId (canonicalHasAuthedReaction, canonicals))"

text \<open>The second loop, over \<open>canonicals\<close>, with the counters it has reached.\<close>

fun mirrorLoop ::
  "env \<Rightarrow> string \<Rightarrow> string \<Rightarrow> ReactionFilterConfig \<Rightarrow> bool \<Rightarrow> string list \<Rightarrow> string list
   \<Rightarrow> MirrorResult \<Rightarrow> event list \<Rightarrow> MirrorResult outcome \<times> event list" where
  "mirrorLoop client channel messageTs reactionFilterCfg dryRun has [] acc tr = (Returned acc, tr)"
| "mirrorLoop client channel messageTs reactionFilterCfg dryRun has (canonical # rest) acc tr =
     (if canonical \<in> set has then
        mirrorLoop client channel messageTs reactionFilterCfg dryRun has rest
          (acc\<lparr>skippedAlreadyReacted := skippedAlreadyReacted acc + 1\<rparr>) tr
      else if isReactionBlocked canonical reactionFilterCfg then
        mirrorLoop client channel messageTs reactionFilterCfg dryRun has rest
          (acc\<lparr>skippedBlacklisted := skippedBlacklisted acc + 1\<rparr>)
          (if debug reactionFilterCfg then tr @ [LogBlocklist canonical channel messageTs] else tr)
      else if dryRun then
        mirrorLoop client channel messageTs reactionFilterCfg dryRun has rest
          (acc\<lparr>added := added acc + 1\<rparr>) (tr @ [LogDryRun canonical channel messageTs])
      else
        (case withRateLimitRetry (reactions_add client tr canonical channel messageTs) of
           Returned u \<Rightarrow>
             mirrorLoop client channel messageTs reactionFilterCfg dryRun has rest
               (acc\<lparr>added := added acc + 1\<rparr>)
               (tr @ [ReactionsAdd canonical channel messageTs, LogAdded canonical channel messageTs])
         | Threw err \<Rightarrow>
             if errorCode err = Some ''already_reacted'' then
               mirrorLoop client channel messageTs reactionFilterCfg dryRun has rest
                 (acc\<lparr>skippedAlreadyReacted := skippedAlreadyReacted acc + 1\<rparr>)
                 (tr @ [ReactionsAdd canonical channel messageTs])
             else (Threw err, tr @ [ReactionsAdd canonical channel messageTs])
         | NoReturn \<Rightarrow> (NoReturn, tr @ [ReactionsAdd canonical channel messageTs])))"

definition mirrorReactionsForMessage ::
  "env \<Rightarrow> string \<Rightarrow> string \<Rightarrow> string \<Rightarrow> SkipConfig \<Rightarrow> ReactionFilterConfig \<Rightarrow> bool
   \<Rightarrow> event list \<Rightarrow> MirrorResult outcome \<times> event list" where
  "mirrorReactionsForMessage client channel messageTs authedUserId skipCfg reactionFilterCfg dryRun tr =
     (let tr1 = tr @ [ReactionsGet channel messageTs] in
      case withRateLimitRetry (reactions_get client tr channel messageTs) of
        Threw err \<Rightarrow> (Threw err, tr1)
      | NoReturn \<Rightarrow> (NoReturn, tr1)
      | Returned message \<Rightarrow>
          if \<not> truthy message then
            (Returned \<lparr>added = 0, skippedAlreadyReacted = 0, skippedOwnMessage = 1,
               skippedBlacklisted = 0\<rparr>, tr1)
          else
            let sk = shouldSkipMessage message skipCfg in
            if skip sk then
              (Returned \<lparr>added = 0, skippedAlreadyReacted = 0, skippedOwnMessage = 1,
                 skippedBlacklisted = 0\<rparr>,
               if debugSkip skipCfg
               then tr1 @ [LogSkip channel messageTs (case reason sk of Some r \<Rightarrow> r | None \<Rightarrow> ''unknown'')]
               else tr1)
            else
              let reactions = reactionsOf message in
              if reactions = [] then
                (Returned \<lparr>added = 0, skippedAlreadyReacted = 0, skippedOwnMessage = 0,
                   skippedBlacklisted = 0\<rparr>, tr1)
              else
                let sets = collectCanonicals reactions authedUserId ([], [])
                in mirrorLoop client channel messageTs reactionFilterCfg dryRun (fst sets) (snd sets)
                     \<lparr>added = 0, skippedAlreadyReacted = 0, skippedOwnMessage = 0,
                       skippedBlacklisted = 0\<rparr> tr1)"

subsection \<open>addDefaultReactionsForMessage\<close>

fun defaultLoop ::
  "env \<Rightarrow> string \<Rightarrow> string \<Rightarrow> ReactionFilterConfig \<Rightarrow> bool \<Rightarrow> string list
   \<Rightarrow> DefaultResult \<Rightarrow> event list \<Rightarrow> DefaultResult outcome \<times> event list" where
  "defaultLoop client channel messageTs reactionFilterCfg dryRun [] acc tr = (Returned acc, tr)"
| "defaultLoop client channel messageTs reactionFilterCfg dryRun (name # rest) acc tr =
     (if isReactionBlocked name reactionFilterCfg then
        defaultLoop client channel messageTs reactionFilterCfg dryRun rest
          (acc\<lparr>skippedBlacklisted := skippedBlacklisted acc + 1\<rparr>)
          (if debug reactionFilterCfg then tr @ [LogBlocklistDefault name channel messageTs] else tr)
      else if dryRun then
        defaultLoop client channel messageTs reactionFilterCfg dryRun rest
          (acc\<lparr>added := added acc + 1\<rparr>) (tr @ [LogDryRunDefault name channel messageTs])
      else
        (case withRateLimitRetry (reactions_add client tr name channel messageTs) of
           Returned u \<Rightarrow>
             defaultLoop client channel messageTs reactionFilterCfg dryRun rest
               (acc\<lparr>added := added acc + 1\<rparr>)
               (tr @ [ReactionsAdd name channel messageTs, LogAddedDefault name channel messageTs])
         | Threw err \<Rightarrow>
             if errorCode err = Some ''already_reacted'' then
               defaultLoop client channel messageTs reactionFilterCfg dryRun rest
                 (acc\<lparr>skippedAlreadyReacted := skippedAlreadyReacted acc + 1\<rparr>)
                 (tr @ [ReactionsAdd name channel messageTs])
             else (Threw err, tr @ [ReactionsAdd name channel messageTs])
         | NoReturn \<Rightarrow> (NoReturn, tr @ [ReactionsAdd name channel messageTs])))"

definition noDefaults :: DefaultResult where
  "noDefaults = \<lparr>added = 0, skippedAlreadyReacted = 0, skippedOwnMessage = 0,
     skippedBlacklisted = 0, skippedHasReactions = 0\<rparr>"

definition addDefaultReactionsForMessage ::
  "env \<Rightarrow> string \<Rightarrow> string \<Rightarrow> string list \<Rightarrow> SkipConfig \<Rightarrow> ReactionFilterConfig \<Rightarrow> bool
   \<Rightarrow> event list \<Rightarrow> DefaultResult outcome \<times> event list" where
  "addDefaultReactionsForMessage client channel messageTs defaultReactionNames skipCfg
     reactionFilterCfg dryRun tr =
     (let tr1 = tr @ [ReactionsGet channel messageTs] in
      case withRateLimitRetry (reactions_get client tr channel messageTs) of
        Threw err \<Rightarrow> (Threw err, tr1)
      | NoReturn \<Rightarrow> (NoReturn, tr1)
      | Returned message \<Rightarrow>
          if \<not> truthy message then (Returned noDefaults, tr1)
          else
            let sk = shouldSkipMessage message skipCfg in
            if skip sk then
              (Returned (noDefaults\<lparr>skippedOwnMessage := 1\<rparr>),
               if debugSkip skipCfg
               then tr1 @ [LogSkip channel messageTs (case reason sk of Some r \<Rightarrow> r | None \<Rightarrow> ''unknown'')]
               else tr1)
            else if reactionsOf message \<noteq> [] then
              (Returned (noDefaults\<lparr>skippedHasReactions := 1\<rparr>), tr1)
            else
              defaultLoop client channel messageTs reactionFilterCfg dryRun defaultReactionNames
                noDefaults tr1)"

subsection \<open>The live watcher's handler of \<open>events_api\<close>\<close>

text \<open>
  The strings the handler reads from the event; it gives the event the type
  \<open>Partial<ReactionAddedEvent>\<close>, and the reader is exact on values of that type.
\<close>

definition strOf :: "json \<Rightarrow> string" where
  "strOf v = (case v of JStr s \<Rightarrow> s | _ \<Rightarrow> [])"

text \<open>The \<open>catch\<close> block of the handler.\<close>

definition catchAddError ::
  "thrown \<Rightarrow> string \<Rightarrow> string \<Rightarrow> string \<Rightarrow> event list \<Rightarrow> unit outcome \<times> event list" where
  "catchAddError err channel ts canonicalReaction tr =
     (let errorCode = errorCode err in
      if errorCode = Some ''already_reacted'' then (Returned (), tr)
      else if errorCode = Some ''too_many_reactions''
      then (Returned (), tr @ [LogTooManyReactions channel ts canonicalReaction])
      else (Returned (), tr @ [LogFailedToAdd canonicalReaction channel ts]))"

text \<open>
  \<open>alreadyReactedAnyVariant\<close>: some entry with a name has the canonical name of the event's
  reaction and lists the acting account.
\<close>

definition alreadyReactedAnyVariant :: "json list \<Rightarrow> string \<Rightarrow> string \<Rightarrow> bool" where
  "alreadyReactedAnyVariant reactions canonicalReaction authedUserId =
     list_ex (\<lambda>r. let n = reactionName r in
                  if n = [] then False
                  else if canonicalizeReactionName n \<noteq> canonicalReaction then False
                  else usersInclude r authedUserId) reactions"

text \<open>
  The handler, for the acting account \<open>authedUserId\<close>, the channel filter (what \<open>optionalEnv\<close>
  returned for \<open>SLACK_CHANNEL_ID\<close>) and the two configurations. \<open>body\<close> is the payload of the
  event.
\<close>

definition onEventsApi ::
  "env \<Rightarrow> string \<Rightarrow> string option \<Rightarrow> SkipConfig \<Rightarrow> ReactionFilterConfig \<Rightarrow> json
   \<Rightarrow> event list \<Rightarrow> unit outcome \<times> event list" where
  "onEventsApi web authedUserId filterChannelId skipCfg reactionFilterCfg body tr =
     (let tr0 = tr @ [Ack];
          event = getProp body ''event''
      in
      if \<not> truthy event then (Returned (), tr0)
      else if getProp event ''type'' \<noteq> JStr ''reaction_added'' then (Returned (), tr0)
      else let item = getProp event ''item'' in
      if \<not> truthy item then (Returned (), tr0)
      else if getProp item ''type'' \<noteq> JStr ''message'' then (Returned (), tr0)
      else
        let channel = strOf (getProp item ''channel'');
            ts = strOf (getProp item ''ts'');
            reaction = strOf (getProp event ''reaction'');
            reactingUser = strOf (getProp event ''user'')
        in
        if channel = [] \<or> ts = [] \<or> reaction = [] \<or> reactingUser = [] then (Returned (), tr0)
        else if reactingUser = authedUserId then (Returned (), tr0)
        else if (case filterChannelId of None \<Rightarrow> False | Some f \<Rightarrow> f \<noteq> [] \<and> channel \<noteq> f)
        then (Returned (), tr0)
        else
          let canonicalReaction = canonicalizeReactionName reaction in
          if isReactionBlocked reaction reactionFilterCfg
             \<or> isReactionBlocked canonicalReaction reactionFilterCfg
          then (Returned (),
                if debug reactionFilterCfg then tr0 @ [LogBlocklist reaction channel ts] else tr0)
          else if getProp event ''item_user'' = JStr (skipUserId skipCfg)
          then (Returned (),
                if debugSkip skipCfg then tr0 @ [LogSkip channel ts ''item_user''] else tr0)
          else
            let tr1 = tr0 @ [ReactionsGet channel ts] in
            (case withRateLimitRetry (reactions_get web tr0 channel ts) of
               NoReturn \<Rightarrow> (NoReturn, tr1)
             | Threw err \<Rightarrow> catchAddError err channel ts canonicalReaction tr1
             | Returned message \<Rightarrow>
                 if \<not> truthy message then (Returned (), tr1)
                 else
                   let sk = shouldSkipMessage message skipCfg in
                   if skip sk then
                     (Returned (),
                      if debugSkip skipCfg
                      then tr1 @ [LogSkip channel ts (case reason sk of Some r \<Rightarrow> r | None \<Rightarrow> ''unknown'')]
                      else tr1)
                   else if alreadyReactedAnyVariant (reactionsOf message) canonicalReaction authedUserId
                   then (Returned (), tr1)
                   else
                     let tr2 = tr1 @ [ReactionsAdd canonicalReaction channel ts] in
                     (case withRateLimitRetry (reactions_add web tr1 canonicalReaction channel ts) of
                        NoReturn \<Rightarrow> (NoReturn, tr2)
                      | Threw err \<Rightarrow> catchAddError err channel ts canonicalReaction tr2
                      | Returned u \<Rightarrow> (Returned (), tr2 @ [LogAdded canonicalReaction channel ts]))))"

subsection \<open>The default reaction names\<close>

text \<open>\<open>value.split(",")\<close>\<close>

fun splitComma :: "string \<Rightarrow> string list" where
  "splitComma [] = [[]]"
| "splitComma (c # cs) =
     (if c = CHR '','' then [] # splitComma cs
      else case splitComma cs of [] \<Rightarrow> [[c]] | p # ps \<Rightarrow> (c # p) # ps)"

text \<open>The argument is what \<open>optionalEnv\<close> returned: a string, or nothing.\<close>

definition parseCommaList :: "string option \<Rightarrow> string list" where
  "parseCommaList value =
     (case value of
        None \<Rightarrow> []
      | Some v \<Rightarrow> if v = [] then [] else filter (\<lambda>s. length s > 0) (map trim (splitComma v)))"

definition BUILTIN_DEFAULT_REACTIONS :: "string list" where
  "BUILTIN_DEFAULT_REACTIONS = [''rocket'', ''raised_hands'', ''saluting_face'', ''v'']"

text \<open>\<open>arr.filter((v, i, arr) => arr.indexOf(v) === i)\<close>: the first occurrence of each element.\<close>

fun firstOccurrences :: "string list \<Rightarrow> string list \<Rightarrow> string list" where
  "firstOccurrences seen [] = []"
| "firstOccurrences seen (x # xs) =
     (if x \<in> set seen then firstOccurrences seen xs else x # firstOccurrences (x # seen) xs)"

text \<open>The argument is \<open>optionalEnv("SLACK_DEFAULT_REACTIONS")\<close>.\<close>

definition defaultReactionNamesOf :: "string option \<Rightarrow> string list" where
  "defaultReactionNamesOf envValue =
     (let envDefaultReactions = parseCommaList envValue
      in firstOccurrences []
           (if length envDefaultReactions > 0 then envDefaultReactions else BUILTIN_DEFAULT_REACTIONS))"

section \<open>The backfill scan\<close>

subsection \<open>parseTime\<close>

text \<open>
  The two expressions are the literals \<open>/^\\d+(\\.\\d+)?$/\<close> and
  \<open>/^\\d{4}-\\d{2}-\\d{2}$/\<close>; as in \<open>canonicalizeReactionName\<close>, \<open>\\\<close> is a backslash
  character, \<open>d\<close> the letter, and \<open>.\<close> after the backslash any character.
\<close>

definition epochSecondsRx :: rx where
  "epochSecondsRx =
     Seq Bol (Seq (Chr backslash) (Seq (Plus (Chr CHR ''d''))
       (Seq (Opt (Seq (Chr backslash) (Seq AnyChar (Seq (Chr backslash) (Plus (Chr CHR ''d''))))))
          Eol)))"

definition dateOnlyRx :: rx where
  "dateOnlyRx =
     Seq Bol (Seq (Chr backslash) (Seq (Times 4 (Chr CHR ''d'')) (Seq (Chr CHR ''-'')
       (Seq (Chr backslash) (Seq (Times 2 (Chr CHR ''d'')) (Seq (Chr CHR ''-'')
         (Seq (Chr backslash) (Seq (Times 2 (Chr CHR ''d'')) Eol))))))))"

text \<open>
  \<open>String(ms / 1000)\<close> for a whole number of milliseconds \<open>ms\<close>: a time value is below
  \<open>2^53\<close> in size, where the quotient prints as its exact decimal expansion, without
  trailing zeros.
\<close>

definition digitChar :: "nat \<Rightarrow> char" where
  "digitChar n = ''0123456789'' ! n"

function digitsOf :: "nat \<Rightarrow> string" where
  "digitsOf n = (if n < 10 then [digitChar n] else digitsOf (n div 10) @ [digitChar (n mod 10)])"
  by pat_completeness auto
termination
  by (relation "measure id") auto

definition fractionOf :: "nat \<Rightarrow> string" where
  "fractionOf f =
     (if f = 0 then []
      else CHR ''.'' # rev (dropWhile (\<lambda>c. c = CHR ''0'')
             (rev [digitChar (f div 100), digitChar (f div 10 mod 10), digitChar (f mod 10)])))"

definition secondsString :: "int \<Rightarrow> string" where
  "secondsString ms =
     (if ms < 0 then ''-'' else []) @ digitsOf (nat \<bar>ms\<bar> div 1000) @ fractionOf (nat \<bar>ms\<bar> mod 1000)"

datatype error = InvalidTime string

text \<open>
  \<open>Date.parse\<close> belongs to the host, not to the scripts: it is the parameter \<open>dateParse\<close>,
  which answers with the milliseconds, or with nothing for \<open>NaN\<close>. The error carries the
  input that follows \<open>Invalid time:\<close> in its message.
\<close>

definition parseTime :: "(string \<Rightarrow> int option) \<Rightarrow> string \<Rightarrow> error + string" where
  "parseTime dateParse input =
     (let trimmed = trim input in
      if rx_test epochSecondsRx False trimmed then Inr trimmed
      else
        let maybeDateOnly =
              (if rx_test dateOnlyRx False trimmed then trimmed @ ''T00:00:00Z'' else trimmed)
        in case dateParse maybeDateOnly of
             None \<Rightarrow> Inl (InvalidTime input)
           | Some ms \<Rightarrow> Inr (secondsString ms))"

subsection \<open>The loop of \<open>main\<close>\<close>

text \<open>The budgets are taken as whole numbers.\<close>

record ArgSpec =
  channel :: "string option"
  oldest :: "string option"
  latest :: "string option"
  includeThreadReplies :: bool
  dryRun :: bool
  addDefaultReactions :: bool
  maxMessages :: "int option"
  maxReactionsAdds :: "int option"

text \<open>
  What \<open>main\<close> has computed when the loop starts: the arguments, the channel, the parsed
  time window, the acting account, the two configurations and the default names.
\<close>

record Scan =
  args :: ArgSpec
  scanChannel :: string
  scanOldest :: "string option"
  scanLatest :: "string option"
  authedUserId :: string
  skipCfg :: SkipConfig
  reactionFilterCfg :: ReactionFilterConfig
  defaultReactionNames :: "string list"

text \<open>The variables of the loop, and the trace of the run so far.\<close>

record ScanState =
  cursor :: "string option"
  processedMessages :: nat
  totalAdds :: nat
  totalSkipped :: nat
  totalSkippedOwn :: nat
  totalSkippedHasReactions :: nat
  totalSkippedBlacklisted :: nat
  trace :: "event list"

text \<open>
  How a loop is left: it ran to its end (\<open>Next\<close>), by \<open>break\<close>, by an error that is thrown
  on, because a remote call never returns, or because the model's bound on the number of
  pages is used up.
\<close>

datatype ctl = Next | Break | Raise thrown | Stuck | OutOfFuel

text \<open>\<open>x || undefined\<close> for a cursor.\<close>

definition orUndefined :: "string option \<Rightarrow> string option" where
  "orUndefined c = (case c of None \<Rightarrow> None | Some x \<Rightarrow> if x = [] then None else Some x)"

definition tsOf :: "json \<Rightarrow> string" where
  "tsOf message = strOf (getProp message ''ts'')"

text \<open>\<open>message.reply_count && message.reply_count > 0\<close>\<close>

definition hasReplies :: "json \<Rightarrow> bool" where
  "hasReplies message = (case getProp message ''reply_count'' of JNum n \<Rightarrow> n > 0 | _ \<Rightarrow> False)"

text \<open>\<open>args.maxReactionsAdds !== undefined && totalAdds >= args.maxReactionsAdds\<close>\<close>

definition addsReached :: "Scan \<Rightarrow> ScanState \<Rightarrow> bool" where
  "addsReached sc st =
     (case maxReactionsAdds (args sc) of None \<Rightarrow> False | Some n \<Rightarrow> int (totalAdds st) \<ge> n)"

text \<open>\<open>args.maxMessages !== undefined && processedMessages > args.maxMessages\<close>\<close>

definition messagesExceeded :: "Scan \<Rightarrow> ScanState \<Rightarrow> bool" where
  "messagesExceeded sc st =
     (case maxMessages (args sc) of None \<Rightarrow> False | Some n \<Rightarrow> int (processedMessages st) > n)"

definition countMirror :: "ScanState \<Rightarrow> MirrorResult \<Rightarrow> event list \<Rightarrow> ScanState" where
  "countMirror st r tr =
     st\<lparr>totalAdds := totalAdds st + added r,
        totalSkipped := totalSkipped st + skippedAlreadyReacted r,
        totalSkippedOwn := totalSkippedOwn st + skippedOwnMessage r,
        totalSkippedBlacklisted := totalSkippedBlacklisted st + skippedBlacklisted r,
        trace := tr\<rparr>"

definition countDefault :: "ScanState \<Rightarrow> DefaultResult \<Rightarrow> event list \<Rightarrow> ScanState" where
  "countDefault st r tr =
     st\<lparr>totalAdds := totalAdds st + added r,
        totalSkipped := totalSkipped st + skippedAlreadyReacted r,
        totalSkippedOwn := totalSkippedOwn st + skippedOwnMessage r,
        totalSkippedHasReactions := totalSkippedHasReactions st + skippedHasReactions r,
        totalSkippedBlacklisted := totalSkippedBlacklisted st + skippedBlacklisted r,
        trace := tr\<rparr>"

text \<open>
  \<open>listThreadReplies\<close> follows the cursors of the thread; the first argument bounds the
  number of pages the model follows.
\<close>

fun listThreadReplies ::
  "nat \<Rightarrow> env \<Rightarrow> string \<Rightarrow> string \<Rightarrow> string option \<Rightarrow> json list \<Rightarrow> event list
   \<Rightarrow> (ctl \<times> json list) \<times> event list" where
  "listThreadReplies 0 client ch threadTs cur replies tr = ((OutOfFuel, replies), tr)"
| "listThreadReplies (Suc fuel) client ch threadTs cur replies tr =
     (let tr1 = tr @ [ConversationsReplies ch threadTs cur] in
      case withRateLimitRetry (conversations_replies client tr ch threadTs cur) of
        Threw err \<Rightarrow> ((Raise err, replies), tr1)
      | NoReturn \<Rightarrow> ((Stuck, replies), tr1)
      | Returned res \<Rightarrow>
          (case orUndefined (next_cursor res) of
             None \<Rightarrow> ((Next, replies @ messages res), tr1)
           | Some c \<Rightarrow> listThreadReplies fuel client ch threadTs (Some c) (replies @ messages res) tr1))"

text \<open>
  One call of \<open>mirrorReactionsForMessage\<close> or \<open>addDefaultReactionsForMessage\<close> from the loop,
  with the totals and the test of the add budget that follow it: \<open>Break\<close> stands for
  \<open>cursor = undefined; break\<close>.
\<close>

definition mirrorStep :: "env \<Rightarrow> Scan \<Rightarrow> string \<Rightarrow> ScanState \<Rightarrow> ctl \<times> ScanState" where
  "mirrorStep client sc ts st =
     (case mirrorReactionsForMessage client (scanChannel sc) ts (authedUserId sc) (skipCfg sc)
             (reactionFilterCfg sc) (dryRun (args sc)) (trace st) of
        (Returned r, tr) \<Rightarrow> (Next, countMirror st r tr)
      | (Threw err, tr) \<Rightarrow> (Raise err, st\<lparr>trace := tr\<rparr>)
      | (NoReturn, tr) \<Rightarrow> (Stuck, st\<lparr>trace := tr\<rparr>))"

definition defaultStep :: "env \<Rightarrow> Scan \<Rightarrow> string \<Rightarrow> ScanState \<Rightarrow> ctl \<times> ScanState" where
  "defaultStep client sc ts st =
     (case addDefaultReactionsForMessage client (scanChannel sc) ts (defaultReactionNames sc)
             (skipCfg sc) (reactionFilterCfg sc) (dryRun (args sc)) (trace st) of
        (Returned r, tr) \<Rightarrow> (Next, countDefault st r tr)
      | (Threw err, tr) \<Rightarrow> (Raise err, st\<lparr>trace := tr\<rparr>)
      | (NoReturn, tr) \<Rightarrow> (Stuck, st\<lparr>trace := tr\<rparr>))"

definition breakIfAddsReached :: "Scan \<Rightarrow> ctl \<times> ScanState \<Rightarrow> ctl \<times> ScanState" where
  "breakIfAddsReached sc r =
     (case r of
        (Next, st) \<Rightarrow> if addsReached sc st then (Break, st\<lparr>cursor := None\<rparr>) else (Next, st)
      | other \<Rightarrow> other)"

text \<open>
  The body of the loop over the replies of a thread, for one reply (it is the same text in
  both places of \<open>main\<close>): \<open>Next\<close> is the end of the body or \<open>continue\<close>.
\<close>

definition replyBody :: "env \<Rightarrow> Scan \<Rightarrow> string \<Rightarrow> json \<Rightarrow> ScanState \<Rightarrow> ctl \<times> ScanState" where
  "replyBody client sc messageTs reply st =
     (if tsOf reply = [] then (Next, st)
      else if tsOf reply = messageTs then (Next, st)
      else if skip (shouldSkipMessage reply (skipCfg sc)) then
        (Next, st\<lparr>totalSkippedOwn := totalSkippedOwn st + 1\<rparr>)
      else if reactionsOf reply = [] then
        (if addDefaultReactions (args sc)
         then breakIfAddsReached sc (defaultStep client sc (tsOf reply) st)
         else (Next, st))
      else breakIfAddsReached sc (mirrorStep client sc (tsOf reply) st))"

fun repliesLoop :: "env \<Rightarrow> Scan \<Rightarrow> string \<Rightarrow> json list \<Rightarrow> ScanState \<Rightarrow> ctl \<times> ScanState" where
  "repliesLoop client sc messageTs [] st = (Next, st)"
| "repliesLoop client sc messageTs (reply # rest) st =
     (case replyBody client sc messageTs reply st of
        (Next, st') \<Rightarrow> repliesLoop client sc messageTs rest st'
      | other \<Rightarrow> other)"

text \<open>
  \<open>if (args.includeThreadReplies && message.reply_count && message.reply_count > 0)\<close> with the
  fetch of the thread and the loop over it.
\<close>

definition threadPart :: "nat \<Rightarrow> env \<Rightarrow> Scan \<Rightarrow> json \<Rightarrow> ScanState \<Rightarrow> ctl \<times> ScanState" where
  "threadPart fuel client sc message st =
     (if includeThreadReplies (args sc) \<and> hasReplies message then
        (case listThreadReplies fuel client (scanChannel sc) (tsOf message) None [] (trace st) of
           ((Next, replies), tr) \<Rightarrow> repliesLoop client sc (tsOf message) replies (st\<lparr>trace := tr\<rparr>)
         | ((other, replies), tr) \<Rightarrow> (other, st\<lparr>trace := tr\<rparr>))
      else (Next, st))"

text \<open>
  The branch of a message without reactions: the default reactions of the message itself,
  then its thread. A \<open>break\<close> of the loop over the replies is followed by \<open>continue\<close>.
\<close>

definition withoutReactions ::
  "nat \<Rightarrow> env \<Rightarrow> Scan \<Rightarrow> json \<Rightarrow> bool \<Rightarrow> ScanState \<Rightarrow> ctl \<times> ScanState" where
  "withoutReactions fuel client sc message isOwnMessage st =
     (case (if addDefaultReactions (args sc) \<and> \<not> isOwnMessage
            then breakIfAddsReached sc (defaultStep client sc (tsOf message) st)
            else if isOwnMessage then (Next, st\<lparr>totalSkippedOwn := totalSkippedOwn st + 1\<rparr>)
            else (Next, st)) of
        (Next, st2) \<Rightarrow>
          (case threadPart fuel client sc message st2 of
             (Break, st3) \<Rightarrow> (Next, st3)
           | other \<Rightarrow> other)
      | other \<Rightarrow> other)"

text \<open>
  The branch of a message with reactions: they are mirrored, then its thread, then the add
  budget is tested (also after a \<open>break\<close> of the loop over the replies).
\<close>

definition withReactions ::
  "nat \<Rightarrow> env \<Rightarrow> Scan \<Rightarrow> json \<Rightarrow> bool \<Rightarrow> ScanState \<Rightarrow> ctl \<times> ScanState" where
  "withReactions fuel client sc message isOwnMessage st =
     (case (if \<not> isOwnMessage then mirrorStep client sc (tsOf message) st
            else (Next, st\<lparr>totalSkippedOwn := totalSkippedOwn st + 1\<rparr>)) of
        (Next, st2) \<Rightarrow>
          (case threadPart fuel client sc message st2 of
             (Next, st3) \<Rightarrow> breakIfAddsReached sc (Next, st3)
           | (Break, st3) \<Rightarrow> breakIfAddsReached sc (Next, st3)
           | other \<Rightarrow> other)
      | other \<Rightarrow> other)"

text \<open>The body of the loop over the messages of a page, for one message.\<close>

definition messageBody :: "nat \<Rightarrow> env \<Rightarrow> Scan \<Rightarrow> json \<Rightarrow> ScanState \<Rightarrow> ctl \<times> ScanState" where
  "messageBody fuel client sc message st =
     (if tsOf message = [] then (Next, st)
      else
        let st1 = st\<lparr>processedMessages := processedMessages st + 1\<rparr> in
        if messagesExceeded sc st1 then (Break, st1\<lparr>cursor := None\<rparr>)
        else
          let isOwnMessage = skip (shouldSkipMessage message (skipCfg sc)) in
          if reactionsOf message = [] then withoutReactions fuel client sc message isOwnMessage st1
          else withReactions fuel client sc message isOwnMessage st1)"

fun messagesLoop :: "nat \<Rightarrow> env \<Rightarrow> Scan \<Rightarrow> json list \<Rightarrow> ScanState \<Rightarrow> ctl \<times> ScanState" where
  "messagesLoop fuel client sc [] st = (Next, st)"
| "messagesLoop fuel client sc (message # rest) st =
     (case messageBody fuel client sc message st of
        (Next, st') \<Rightarrow> messagesLoop fuel client sc rest st'
      | other \<Rightarrow> other)"

text \<open>
  The \<open>do ... while (cursor)\<close> loop over the pages of the history. The first argument bounds
  the number of pages the model fetches, the second is the bound for each thread.
\<close>

fun mainLoop :: "nat \<Rightarrow> nat \<Rightarrow> env \<Rightarrow> Scan \<Rightarrow> ScanState \<Rightarrow> ctl \<times> ScanState" where
  "mainLoop 0 tfuel client sc st = (OutOfFuel, st)"
| "mainLoop (Suc fuel) tfuel client sc st =
     (let tr1 = trace st @ [ConversationsHistory (scanChannel sc) (scanOldest sc) (scanLatest sc) (cursor st)] in
      case withRateLimitRetry (conversations_history client (trace st) (scanChannel sc) (scanOldest sc) (scanLatest sc)
             (cursor st)) of
        Threw err \<Rightarrow> (Raise err, st\<lparr>trace := tr1\<rparr>)
      | NoReturn \<Rightarrow> (Stuck, st\<lparr>trace := tr1\<rparr>)
      | Returned res \<Rightarrow>
          (case messagesLoop tfuel client sc (messages res)
                  (st\<lparr>cursor := orUndefined (next_cursor res), trace := tr1\<rparr>) of
             (Next, st') \<Rightarrow>
               (case cursor st' of None \<Rightarrow> (Next, st') | Some c \<Rightarrow> mainLoop fuel tfuel client sc st')
           | (Break, st') \<Rightarrow>
               (case cursor st' of None \<Rightarrow> (Next, st') | Some c \<Rightarrow> mainLoop fuel tfuel client sc st')
           | other \<Rightarrow> other))"

text \<open>The state in which \<open>main\<close> enters the loop.\<close>

definition initialState :: ScanState where
  "initialState =
     \<lparr>cursor = None, processedMessages = 0, totalAdds = 0, totalSkipped = 0, totalSkippedOwn = 0,
      totalSkippedHasReactions = 0, totalSkippedBlacklisted = 0, trace = []\<rparr>"

subsection \<open>A service and configurations for concrete runs\<close>

text \<open>
  A service that answers every \<open>reactions.get\<close> with the same message and every
  \<open>reactions.add\<close> with the same answer, and has no history.
\<close>

definition constClient :: "json \<Rightarrow> unit answers \<Rightarrow> env" where
  "constClient message addAnswer =
     \<lparr>reactions_get = (\<lambda>tr ch ts. Succeeds message),
      reactions_add = (\<lambda>tr name ch ts. addAnswer),
      conversations_history =
        (\<lambda>tr ch old new cur. Succeeds \<lparr>messages = [], next_cursor = None\<rparr>),
      conversations_replies =
        (\<lambda>tr ch ts cur. Succeeds \<lparr>messages = [], next_cursor = None\<rparr>)\<rparr>"

text \<open>A skip configuration with nothing but the account to skip, and a filter with one name.\<close>

definition plainSkipCfg :: "string \<Rightarrow> SkipConfig" where
  "plainSkipCfg uid =
     \<lparr>skipUserId = uid, skipUserAliases = [], skipMessageRegex = None,
      skipMessageContains = [], debugSkip = False\<rparr>"

definition exactFilter :: "string set \<Rightarrow> ReactionFilterConfig" where
  "exactFilter names =
     \<lparr>blacklistExact = names, blacklistContains = [], blacklistRegex = None, debug = False\<rparr>"

text \<open>Messages for concrete runs.\<close>

definition rocketMessage :: json where
  "rocketMessage =
     JObj [(''user'', JStr ''U2''), (''text'', JStr ''shipped the release''),
       (''reactions'', JArr [JObj [(''name'', JStr ''rocket''), (''users'', JArr [JStr ''U3''])]])]"

definition plainMessage :: json where
  "plainMessage = JObj [(''user'', JStr ''U2''), (''text'', JStr ''shipped the release'')]"

text \<open>
  A message on which the acting account \<open>U1\<close> holds \<open>thumbsup::skin-tone-2\<close> and another
  account holds \<open>thumbsup\<close>.
\<close>

definition variantMessage :: json where
  "variantMessage =
     JObj [(''user'', JStr ''U2''), (''text'', JStr ''shipped the release''),
       (''reactions'', JArr
          [JObj [(''name'', JStr ''thumbsup::skin-tone-2''), (''users'', JArr [JStr ''U1''])],
           JObj [(''name'', JStr ''thumbsup''), (''users'', JArr [JStr ''U3''])]])]"

definition reactedMessage :: json where
  "reactedMessage =
     JObj [(''user'', JStr ''U2''), (''text'', JStr ''shipped the release''),
       (''reactions'', JArr
          [JObj [(''name'', JStr ''rocket''), (''users'', JArr [JStr ''U1'', JStr ''U3''])],
           JObj [(''name'', JStr ''tada''), (''users'', JArr [JStr ''U3''])]])]"

text \<open>
  A \<open>reaction_added\<close> event: account \<open>U3\<close> reacted with \<open>raised_hands::skin-tone-3\<close> to the
  message \<open>1.0\<close> of account \<open>U2\<close> in channel \<open>C1\<close>; and that message as it is fetched then.
\<close>

definition skinToneEvent :: json where
  "skinToneEvent =
     JObj [(''event'', JObj [(''type'', JStr ''reaction_added''), (''user'', JStr ''U3''),
       (''reaction'', JStr ''raised_hands::skin-tone-3''), (''item_user'', JStr ''U2''),
       (''item'', JObj [(''type'', JStr ''message''), (''channel'', JStr ''C1''),
          (''ts'', JStr ''1.0'')])])]"

definition skinToneMessage :: json where
  "skinToneMessage =
     JObj [(''user'', JStr ''U2''), (''text'', JStr ''shipped the release''),
       (''reactions'', JArr
          [JObj [(''name'', JStr ''raised_hands::skin-tone-3''), (''users'', JArr [JStr ''U3''])]])]"

text \<open>
  A service with a history: the pages by cursor, the message \<open>reactions.get\<close> answers with
  by timestamp, one answer for every \<open>reactions.add\<close>, and no threads.
\<close>

definition pagedClient :: "(string option \<Rightarrow> page) \<Rightarrow> (string \<Rightarrow> json) \<Rightarrow> unit answers \<Rightarrow> env" where
  "pagedClient pages fetch addAnswer =
     \<lparr>reactions_get = (\<lambda>tr ch ts. Succeeds (fetch ts)),
      reactions_add = (\<lambda>tr name ch ts. addAnswer),
      conversations_history = (\<lambda>tr ch old new cur. Succeeds (pages cur)),
      conversations_replies =
        (\<lambda>tr ch ts cur. Succeeds \<lparr>messages = [], next_cursor = None\<rparr>)\<rparr>"

text \<open>The same message for every timestamp; and a host whose \<open>Date.parse\<close> accepts nothing.\<close>

definition always :: "json \<Rightarrow> string \<Rightarrow> json" where
  "always message ts = message"

definition parsesNothing :: "string \<Rightarrow> int option" where
  "parsesNothing s = None"

text \<open>A message with its timestamp.\<close>

fun stamped :: "string \<Rightarrow> json \<Rightarrow> json" where
  "stamped ts (JObj fs) = JObj ((''ts'', JStr ts) # fs)"
| "stamped ts v = v"

text \<open>A scan of channel \<open>C1\<close> as account \<open>U9\<close>, without thread replies, with the two budgets.\<close>

definition budgetScan :: "int option \<Rightarrow> int option \<Rightarrow> Scan" where
  "budgetScan maxM maxA =
     \<lparr>args = \<lparr>channel = Some ''C1'', oldest = None, latest = None, includeThreadReplies = False,
               dryRun = False, addDefaultReactions = False, maxMessages = maxM,
               maxReactionsAdds = maxA\<rparr>,
      scanChannel = ''C1'', scanOldest = None, scanLatest = None, authedUserId = ''U9'',
      skipCfg = plainSkipCfg ''U9'', reactionFilterCfg = exactFilter {},
      defaultReactionNames = BUILTIN_DEFAULT_REACTIONS\<rparr>"

text \<open>The same scan with \<open>--add-default-reactions\<close> and only the add budget.\<close>

definition defaultsScan :: "int option \<Rightarrow> Scan" where
  "defaultsScan maxA =
     (budgetScan None maxA)\<lparr>args := (args (budgetScan None maxA))\<lparr>addDefaultReactions := True\<rparr>\<rparr>"

text \<open>One page with one message, and two pages with one message each.\<close>

definition onePage :: "string option \<Rightarrow> page" where
  "onePage cur = \<lparr>messages = [stamped ''1.0'' reactedMessage], next_cursor = None\<rparr>"

definition twoPages :: "string option \<Rightarrow> page" where
  "twoPages cur =
     (if cur = None then \<lparr>messages = [stamped ''1.0'' rocketMessage], next_cursor = Some ''p2''\<rparr>
      else \<lparr>messages = [stamped ''2.0'' rocketMessage], next_cursor = None\<rparr>)"

section \<open>Properties\<close>

subsection \<open>The expressions of \<open>canonicalizeReactionName\<close>\<close>

text \<open>
  Both expressions need a backslash character in the name, so a name without one is returned
  as it is, whatever suffix it has.
\<close>

lemma lit_needs_backslash:
  "backslash \<notin> set s \<Longrightarrow> rx_match (lit p (Seq (Chr backslash) r)) False (q, s) = []"
proof (induction p arbitrary: q s)
  case Nil
  then show ?case by (cases s) (auto simp: one_def)
next
  case (Cons c p)
  show ?case
  proof (cases s)
    case Nil
    then show ?thesis by (simp add: one_def)
  next
    case (Cons x xs)
    with Cons.prems have "backslash \<notin> set xs" by simp
    from Cons.IH[OF this] Cons show ?thesis by (simp add: one_def)
  qed
qed

lemma replace_from_no_match:
  assumes "\<And>q t. backslash \<notin> set t \<Longrightarrow> rx_match r False (q, t) = []"
  shows "backslash \<notin> set s \<Longrightarrow> replace_from r False rep p s = s"
  by (induction s arbitrary: p) (simp_all add: assms)

lemma canonicalize_without_backslash:
  assumes "backslash \<notin> set name"
  shows "canonicalizeReactionName name = name"
proof -
  have two: "replaceAll skinTone2 False [] name = name"
    unfolding replaceAll_def skinTone2_def
    by (rule replace_from_no_match[OF lit_needs_backslash assms])
  have one: "replaceAll skinTone1 False [] name = name"
    unfolding replaceAll_def skinTone1_def
    by (rule replace_from_no_match[OF lit_needs_backslash assms])
  show ?thesis by (simp add: canonicalizeReactionName_def two one)
qed

subsection \<open>Bounds of the walk over a message\<close>

lemma collect_length:
  "length (collectStrings v out d ms) \<le> max (length out) ms"
  "length (collectArray vs out d ms) \<le> max (length out) ms"
  "length (collectValues fs out d ms) \<le> max (length out) ms"
proof (induction v out d ms and vs out d ms and fs out d ms
    rule: collectStrings_collectArray_collectValues.induct)
  case (1 v out maxDepth maxStrings)
  then show ?case by (cases v) (auto simp del: collectArray.simps collectValues.simps)
next
  case (2 out d maxStrings) then show ?case by simp
next
  case (3 v vs out d maxStrings)
  then show ?case by (simp del: collectStrings.simps)
next
  case (4 out d maxStrings) then show ?case by simp
next
  case (5 kv fs out d maxStrings)
  then show ?case by (auto simp del: collectStrings.simps simp: Let_def)
qed

lemma collect_cut:
  "collectStrings (cutBelow d v) out d ms = collectStrings v out d ms"
  "collectArray (map (cutBelow d) vs) out d ms = collectArray vs out d ms"
  "collectValues (map (\<lambda>kv. (fst kv, cutBelow d (snd kv))) fs) out d ms = collectValues fs out d ms"
proof (induction v out d ms and vs out d ms and fs out d ms
    rule: collectStrings_collectArray_collectValues.induct)
  case (1 v out maxDepth maxStrings)
  then show ?case by (cases v; cases maxDepth) (auto simp del: collectArray.simps collectValues.simps)
next
  case (2 out d maxStrings) then show ?case by simp
next
  case (3 v vs out d maxStrings)
  then show ?case by (simp del: collectStrings.simps)
next
  case (4 out d maxStrings) then show ?case by simp
next
  case (5 kv fs out d maxStrings)
  then show ?case by (auto simp del: collectStrings.simps simp: Let_def)
qed

subsection \<open>The add-actions of the two loops\<close>

lemma addActions_append: "addActions (a @ b) = addActions a @ addActions b"
  by (induction a) (auto split: option.splits)

lemma newAdds_append: "newAdds tr (tr @ evs) = addActions evs"
  by (simp add: newAdds_def)

lemma mirrorLoop_trace:
  "\<exists>evs. snd (mirrorLoop cl ch ts f d has cs acc tr) = tr @ evs
     \<and> set (addActions evs) \<subseteq> {c. c \<in> set cs \<and> c \<notin> set has \<and> \<not> isReactionBlocked c f}"
proof (induction cs arbitrary: acc tr)
  case Nil
  show ?case by simp
next
  case (Cons c cs)
  note IH = Cons.IH
  show ?case
  proof (cases "c \<in> set has")
    case True
    with IH[of "acc\<lparr>skippedAlreadyReacted := skippedAlreadyReacted acc + 1\<rparr>" tr]
    show ?thesis by auto
  next
    case nh: False
    show ?thesis
    proof (cases "isReactionBlocked c f")
      case True
      obtain evs where e: "snd (mirrorLoop cl ch ts f d has cs
          (acc\<lparr>skippedBlacklisted := skippedBlacklisted acc + 1\<rparr>)
          (if debug f then tr @ [LogBlocklist c ch ts] else tr))
          = (if debug f then tr @ [LogBlocklist c ch ts] else tr) @ evs"
        and a: "set (addActions evs) \<subseteq> {c. c \<in> set cs \<and> c \<notin> set has \<and> \<not> isReactionBlocked c f}"
        using IH by blast
      show ?thesis
      proof (cases "debug f")
        case True
        with e a nh \<open>isReactionBlocked c f\<close> show ?thesis
          by (intro exI[of _ "LogBlocklist c ch ts # evs"]) (auto)
      next
        case False
        with e a nh \<open>isReactionBlocked c f\<close> show ?thesis
          by (intro exI[of _ evs]) auto
      qed
    next
      case nb: False
      show ?thesis
      proof (cases d)
        case True
        obtain evs where e: "snd (mirrorLoop cl ch ts f d has cs (acc\<lparr>added := added acc + 1\<rparr>)
            (tr @ [LogDryRun c ch ts])) = (tr @ [LogDryRun c ch ts]) @ evs"
          and a: "set (addActions evs) \<subseteq> {c. c \<in> set cs \<and> c \<notin> set has \<and> \<not> isReactionBlocked c f}"
          using IH by blast
        with nh nb True show ?thesis
          by (intro exI[of _ "LogDryRun c ch ts # evs"]) (auto)
      next
        case nd: False
        show ?thesis
        proof (cases "withRateLimitRetry (reactions_add cl tr c ch ts)")
          case (Returned u)
          obtain evs where e: "snd (mirrorLoop cl ch ts f d has cs (acc\<lparr>added := added acc + 1\<rparr>)
              (tr @ [ReactionsAdd c ch ts, LogAdded c ch ts])) = (tr @ [ReactionsAdd c ch ts, LogAdded c ch ts]) @ evs"
            and a: "set (addActions evs) \<subseteq> {c. c \<in> set cs \<and> c \<notin> set has \<and> \<not> isReactionBlocked c f}"
            using IH by blast
          with nh nb nd Returned show ?thesis
            by (intro exI[of _ "ReactionsAdd c ch ts # LogAdded c ch ts # evs"]) (auto)
        next
          case (Threw err)
          show ?thesis
          proof (cases "errorCode err = Some ''already_reacted''")
            case True
            obtain evs where e: "snd (mirrorLoop cl ch ts f d has cs
                (acc\<lparr>skippedAlreadyReacted := skippedAlreadyReacted acc + 1\<rparr>)
                (tr @ [ReactionsAdd c ch ts])) = (tr @ [ReactionsAdd c ch ts]) @ evs"
              and a: "set (addActions evs) \<subseteq> {c. c \<in> set cs \<and> c \<notin> set has \<and> \<not> isReactionBlocked c f}"
              using IH by blast
            with nh nb nd Threw True show ?thesis
              by (intro exI[of _ "ReactionsAdd c ch ts # evs"]) (auto)
          next
            case False
            with nh nb nd Threw show ?thesis
              by (intro exI[of _ "[ReactionsAdd c ch ts]"]) (auto)
          qed
        next
          case NoReturn
          with nh nb nd show ?thesis
            by (intro exI[of _ "[ReactionsAdd c ch ts]"]) (auto)
        qed
      qed
    qed
  qed
qed

lemma defaultLoop_trace:
  "\<exists>evs. snd (defaultLoop cl ch ts f d names acc tr) = tr @ evs
     \<and> set (addActions evs) \<subseteq> {n. n \<in> set names \<and> \<not> isReactionBlocked n f}"
proof (induction names arbitrary: acc tr)
  case Nil
  show ?case by simp
next
  case (Cons c cs)
  note IH = Cons.IH
  show ?case
  proof (cases "isReactionBlocked c f")
    case True
    obtain evs where e: "snd (defaultLoop cl ch ts f d cs
        (acc\<lparr>skippedBlacklisted := skippedBlacklisted acc + 1\<rparr>)
        (if debug f then tr @ [LogBlocklistDefault c ch ts] else tr))
        = (if debug f then tr @ [LogBlocklistDefault c ch ts] else tr) @ evs"
      and a: "set (addActions evs) \<subseteq> {n. n \<in> set cs \<and> \<not> isReactionBlocked n f}"
      using IH by blast
    show ?thesis
    proof (cases "debug f")
      case True
      with e a \<open>isReactionBlocked c f\<close> show ?thesis
        by (intro exI[of _ "LogBlocklistDefault c ch ts # evs"]) auto
    next
      case False
      with e a \<open>isReactionBlocked c f\<close> show ?thesis
        by (intro exI[of _ evs]) auto
    qed
  next
    case nb: False
    show ?thesis
    proof (cases d)
      case True
      obtain evs where e: "snd (defaultLoop cl ch ts f d cs (acc\<lparr>added := added acc + 1\<rparr>)
          (tr @ [LogDryRunDefault c ch ts])) = (tr @ [LogDryRunDefault c ch ts]) @ evs"
        and a: "set (addActions evs) \<subseteq> {n. n \<in> set cs \<and> \<not> isReactionBlocked n f}"
        using IH by blast
      with nb True show ?thesis
        by (intro exI[of _ "LogDryRunDefault c ch ts # evs"]) auto
    next
      case nd: False
      show ?thesis
      proof (cases "withRateLimitRetry (reactions_add cl tr c ch ts)")
        case (Returned u)
        obtain evs where e: "snd (defaultLoop cl ch ts f d cs (acc\<lparr>added := added acc + 1\<rparr>)
            (tr @ [ReactionsAdd c ch ts, LogAddedDefault c ch ts]))
            = (tr @ [ReactionsAdd c ch ts, LogAddedDefault c ch ts]) @ evs"
          and a: "set (addActions evs) \<subseteq> {n. n \<in> set cs \<and> \<not> isReactionBlocked n f}"
          using IH by blast
        with nb nd Returned show ?thesis
          by (intro exI[of _ "ReactionsAdd c ch ts # LogAddedDefault c ch ts # evs"]) auto
      next
        case (Threw err)
        show ?thesis
        proof (cases "errorCode err = Some ''already_reacted''")
          case True
          obtain evs where e: "snd (defaultLoop cl ch ts f d cs
              (acc\<lparr>skippedAlreadyReacted := skippedAlreadyReacted acc + 1\<rparr>)
              (tr @ [ReactionsAdd c ch ts])) = (tr @ [ReactionsAdd c ch ts]) @ evs"
            and a: "set (addActions evs) \<subseteq> {n. n \<in> set cs \<and> \<not> isReactionBlocked n f}"
            using IH by blast
          with nb nd Threw True show ?thesis
            by (intro exI[of _ "ReactionsAdd c ch ts # evs"]) auto
        next
          case False
          with nb nd Threw show ?thesis
            by (intro exI[of _ "[ReactionsAdd c ch ts]"]) auto
        qed
      next
        case NoReturn
        with nb nd show ?thesis
          by (intro exI[of _ "[ReactionsAdd c ch ts]"]) auto
      qed
    qed
  qed
qed

lemma mirror_trace:
  "\<exists>evs. snd (mirrorReactionsForMessage cl ch ts uid sc f d tr) = tr @ evs
     \<and> (\<forall>m. withRateLimitRetry (reactions_get cl tr ch ts) = Returned m \<longrightarrow>
          set (addActions evs) \<subseteq>
            {c. truthy m \<and> \<not> skip (shouldSkipMessage m sc)
                \<and> c \<in> set (snd (collectCanonicals (reactionsOf m) uid ([], [])))
                \<and> c \<notin> set (fst (collectCanonicals (reactionsOf m) uid ([], [])))
                \<and> \<not> isReactionBlocked c f})
     \<and> ((\<forall>m. withRateLimitRetry (reactions_get cl tr ch ts) \<noteq> Returned m) \<longrightarrow> addActions evs = [])"
proof (cases "withRateLimitRetry (reactions_get cl tr ch ts)")
  case (Returned m)
  show ?thesis
  proof (cases "truthy m \<and> \<not> skip (shouldSkipMessage m sc) \<and> reactionsOf m \<noteq> []")
    case True
    obtain evs where e: "snd (mirrorLoop cl ch ts f d (fst (collectCanonicals (reactionsOf m) uid ([], [])))
         (snd (collectCanonicals (reactionsOf m) uid ([], [])))
         \<lparr>added = 0, skippedAlreadyReacted = 0, skippedOwnMessage = 0, skippedBlacklisted = 0\<rparr>
         (tr @ [ReactionsGet ch ts])) = (tr @ [ReactionsGet ch ts]) @ evs"
      and a: "set (addActions evs) \<subseteq> {c. c \<in> set (snd (collectCanonicals (reactionsOf m) uid ([], [])))
           \<and> c \<notin> set (fst (collectCanonicals (reactionsOf m) uid ([], []))) \<and> \<not> isReactionBlocked c f}"
      using mirrorLoop_trace by blast
    with Returned True show ?thesis
      by (intro exI[of _ "ReactionsGet ch ts # evs"])
         (auto simp: mirrorReactionsForMessage_def Let_def)
  next
    case False
    with Returned show ?thesis
      by (intro exI[of _ "drop (length tr) (snd (mirrorReactionsForMessage cl ch ts uid sc f d tr))"])
         (auto simp: mirrorReactionsForMessage_def Let_def)
  qed
next
  case (Threw e)
  then show ?thesis
    by (intro exI[of _ "[ReactionsGet ch ts]"]) (auto simp: mirrorReactionsForMessage_def Let_def)
next
  case NoReturn
  then show ?thesis
    by (intro exI[of _ "[ReactionsGet ch ts]"]) (auto simp: mirrorReactionsForMessage_def Let_def)
qed

lemma addDefault_trace:
  "\<exists>evs. snd (addDefaultReactionsForMessage cl ch ts names sc f d tr) = tr @ evs
     \<and> (\<forall>m. withRateLimitRetry (reactions_get cl tr ch ts) = Returned m \<longrightarrow>
          set (addActions evs) \<subseteq>
            {n. truthy m \<and> \<not> skip (shouldSkipMessage m sc) \<and> reactionsOf m = []
                \<and> n \<in> set names \<and> \<not> isReactionBlocked n f})
     \<and> ((\<forall>m. withRateLimitRetry (reactions_get cl tr ch ts) \<noteq> Returned m) \<longrightarrow> addActions evs = [])"
proof (cases "withRateLimitRetry (reactions_get cl tr ch ts)")
  case (Returned m)
  show ?thesis
  proof (cases "truthy m \<and> \<not> skip (shouldSkipMessage m sc) \<and> reactionsOf m = []")
    case True
    obtain evs where e: "snd (defaultLoop cl ch ts f d names noDefaults
         (tr @ [ReactionsGet ch ts])) = (tr @ [ReactionsGet ch ts]) @ evs"
      and a: "set (addActions evs) \<subseteq> {n. n \<in> set names \<and> \<not> isReactionBlocked n f}"
      using defaultLoop_trace by blast
    with Returned True show ?thesis
      by (intro exI[of _ "ReactionsGet ch ts # evs"])
         (auto simp: addDefaultReactionsForMessage_def Let_def)
  next
    case False
    with Returned show ?thesis
      by (intro exI[of _ "drop (length tr) (snd (addDefaultReactionsForMessage cl ch ts names sc f d tr))"])
         (auto simp: addDefaultReactionsForMessage_def Let_def)
  qed
next
  case (Threw e)
  then show ?thesis
    by (intro exI[of _ "[ReactionsGet ch ts]"]) (auto simp: addDefaultReactionsForMessage_def Let_def)
next
  case NoReturn
  then show ?thesis
    by (intro exI[of _ "[ReactionsGet ch ts]"]) (auto simp: addDefaultReactionsForMessage_def Let_def)
qed

lemma blocked_rocket_v:
  assumes "blacklistExact f = {''v''}" "blacklistContains f = []" "blacklistRegex f = None"
  shows "\<not> isReactionBlocked ''rocket'' f" "isReactionBlocked ''v'' f"
  using assms
  by (simp_all add: isReactionBlocked_def normalizeReactionName_def trim_def toLowerCase_def
      lowerChar_def isSpace_def)

subsection \<open>The loops of the backfill scan\<close>

lemma mirrorStep_frame:
  "mirrorStep cl sc ts st = (c, st') \<Longrightarrow>
   processedMessages st' = processedMessages st \<and> cursor st' = cursor st
   \<and> c \<noteq> Break \<and> c \<noteq> OutOfFuel \<and> (c \<noteq> Next \<longrightarrow> totalAdds st' = totalAdds st)"
  by (auto simp: mirrorStep_def countMirror_def split: prod.splits outcome.splits)

lemma defaultStep_frame:
  "defaultStep cl sc ts st = (c, st') \<Longrightarrow>
   processedMessages st' = processedMessages st \<and> cursor st' = cursor st
   \<and> c \<noteq> Break \<and> c \<noteq> OutOfFuel \<and> (c \<noteq> Next \<longrightarrow> totalAdds st' = totalAdds st)"
  by (auto simp: defaultStep_def countDefault_def split: prod.splits outcome.splits)

lemma breakIfAddsReached_cases:
  "breakIfAddsReached sc (c, st) = (c', st') \<Longrightarrow>
   (c = Next \<and> \<not> addsReached sc st \<and> c' = Next \<and> st' = st)
   \<or> (c = Next \<and> addsReached sc st \<and> c' = Break \<and> st' = st\<lparr>cursor := None\<rparr>)
   \<or> (c \<noteq> Next \<and> c' = c \<and> st' = st)"
  by (auto simp: breakIfAddsReached_def split: ctl.splits if_splits)

lemma threadPart_off:
  "\<not> includeThreadReplies (args sc) \<Longrightarrow> threadPart f cl sc m st = (Next, st)"
  by (simp add: threadPart_def)

lemma messagesExceeded_cong:
  "processedMessages st' = processedMessages st \<Longrightarrow> messagesExceeded sc st' = messagesExceeded sc st"
  by (simp add: messagesExceeded_def split: option.splits)

lemma addsReached_cong:
  "totalAdds st' = totalAdds st \<Longrightarrow> addsReached sc st' = addsReached sc st"
  by (simp add: addsReached_def split: option.splits)

lemma messagesLoop_append:
  "messagesLoop f cl sc (pre @ post) st =
     (case messagesLoop f cl sc pre st of
        (Next, st1) \<Rightarrow> messagesLoop f cl sc post st1
      | other \<Rightarrow> other)"
proof (induction pre arbitrary: st)
  case Nil
  show ?case by simp
next
  case (Cons m pre)
  show ?case
    by (cases "messageBody f cl sc m st") (simp add: Cons.IH split: ctl.splits)
qed

lemma checked_step_frame:
  assumes "breakIfAddsReached sc r = (c, st')" and "r = mirrorStep cl sc ts st \<or> r = defaultStep cl sc ts st"
  shows "processedMessages st' = processedMessages st \<and> c \<noteq> OutOfFuel
    \<and> (c = Break \<longrightarrow> cursor st' = None)
    \<and> (c = Next \<longrightarrow> \<not> addsReached sc st' \<and> cursor st' = cursor st)"
proof -
  obtain c0 st0 where r: "r = (c0, st0)" by (cases r)
  with assms(2) have f: "processedMessages st0 = processedMessages st \<and> cursor st0 = cursor st
      \<and> c0 \<noteq> Break \<and> c0 \<noteq> OutOfFuel"
    using mirrorStep_frame[of cl sc ts st c0 st0] defaultStep_frame[of cl sc ts st c0 st0] by auto
  from breakIfAddsReached_cases[OF assms(1)[unfolded r]] f show ?thesis by auto
qed

lemma replyBody_frame:
  assumes "replyBody cl sc mts reply st = (c, st')"
  shows "processedMessages st' = processedMessages st \<and> c \<noteq> OutOfFuel
    \<and> (c = Break \<longrightarrow> cursor st' = None)"
proof -
  have "replyBody cl sc mts reply st = (Next, st)
    \<or> replyBody cl sc mts reply st = (Next, st\<lparr>totalSkippedOwn := totalSkippedOwn st + 1\<rparr>)
    \<or> replyBody cl sc mts reply st = breakIfAddsReached sc (defaultStep cl sc (tsOf reply) st)
    \<or> replyBody cl sc mts reply st = breakIfAddsReached sc (mirrorStep cl sc (tsOf reply) st)"
    by (simp add: replyBody_def)
  then consider (plain) "(c, st') = (Next, st)"
    | (own) "(c, st') = (Next, st\<lparr>totalSkippedOwn := totalSkippedOwn st + 1\<rparr>)"
    | (dflt) "breakIfAddsReached sc (defaultStep cl sc (tsOf reply) st) = (c, st')"
    | (mirror) "breakIfAddsReached sc (mirrorStep cl sc (tsOf reply) st) = (c, st')"
    unfolding assms by metis
  then show ?thesis
  proof cases
    case plain
    then show ?thesis by simp
  next
    case own
    then show ?thesis by simp
  next
    case dflt
    from checked_step_frame[OF dflt] show ?thesis by blast
  next
    case mirror
    from checked_step_frame[OF mirror] show ?thesis by blast
  qed
qed

lemma listThreadReplies_ctl:
  "fst (fst (listThreadReplies f cl ch ts cur acc tr)) \<noteq> Break"
  by (induction f arbitrary: cur acc tr) (auto simp: Let_def split: outcome.splits option.splits)

lemma repliesLoop_frame:
  "repliesLoop cl sc mts replies st = (c, st') \<Longrightarrow>
   processedMessages st' = processedMessages st \<and> c \<noteq> OutOfFuel \<and> (c = Break \<longrightarrow> cursor st' = None)"
proof (induction replies arbitrary: st)
  case Nil
  then show ?case by auto
next
  case (Cons r replies)
  obtain c1 st1 where b: "replyBody cl sc mts r st = (c1, st1)" by (cases "replyBody cl sc mts r st")
  note f = replyBody_frame[OF b]
  show ?case
  proof (cases "c1 = Next")
    case True
    with Cons.prems b have "repliesLoop cl sc mts replies st1 = (c, st')" by simp
    from Cons.IH[OF this] f show ?thesis by simp
  next
    case False
    with Cons.prems b have "(c, st') = (c1, st1)" by (cases c1) auto
    with f show ?thesis by auto
  qed
qed

lemma threadPart_frame:
  assumes "threadPart f cl sc m st = (c, st')"
  shows "processedMessages st' = processedMessages st \<and> (c = Break \<longrightarrow> cursor st' = None)"
proof (cases "includeThreadReplies (args sc) \<and> hasReplies m")
  case False
  with assms show ?thesis by (auto simp: threadPart_def)
next
  case True
  obtain c0 replies tr where l: "listThreadReplies f cl (scanChannel sc) (tsOf m) None [] (trace st)
      = ((c0, replies), tr)"
    by (metis surj_pair)
  show ?thesis
  proof (cases "c0 = Next")
    case n: True
    with assms True l have "repliesLoop cl sc (tsOf m) replies (st\<lparr>trace := tr\<rparr>) = (c, st')"
      by (simp add: threadPart_def)
    from repliesLoop_frame[OF this] show ?thesis by simp
  next
    case False
    with assms True l have "(c, st') = (c0, st\<lparr>trace := tr\<rparr>) "
      by (cases c0) (auto simp: threadPart_def)
    moreover have "c0 \<noteq> Break" using listThreadReplies_ctl[of f cl "scanChannel sc" "tsOf m" None "[]" "trace st"] l by simp
    ultimately show ?thesis by auto
  qed
qed

lemma withoutReactions_frame:
  assumes "withoutReactions f cl sc m own st = (c, st')"
  shows "processedMessages st' = processedMessages st \<and> (c = Break \<longrightarrow> cursor st' = None)"
proof -
  define r where "r = (if addDefaultReactions (args sc) \<and> \<not> own
            then breakIfAddsReached sc (defaultStep cl sc (tsOf m) st)
            else if own then (Next, st\<lparr>totalSkippedOwn := totalSkippedOwn st + 1\<rparr>)
            else (Next, st))"
  obtain c2 st2 where r2: "r = (c2, st2)" by (cases r)
  have f2: "processedMessages st2 = processedMessages st \<and> (c2 = Break \<longrightarrow> cursor st2 = None)"
  proof (cases "addDefaultReactions (args sc) \<and> \<not> own")
    case True
    with r2 have "breakIfAddsReached sc (defaultStep cl sc (tsOf m) st) = (c2, st2)"
      by (simp add: r_def)
    from checked_step_frame[OF this] show ?thesis by blast
  next
    case False
    with r2 show ?thesis by (auto simp: r_def split: if_splits)
  qed
  show ?thesis
  proof (cases "c2 = Next")
    case True
    obtain c3 st3 where t: "threadPart f cl sc m st2 = (c3, st3)" by (cases "threadPart f cl sc m st2")
    note f3 = threadPart_frame[OF t]
    from assms r2 True t have "(c, st') = (if c3 = Break then Next else c3, st3)"
      unfolding withoutReactions_def r_def[symmetric] by (cases c3) auto
    with f2 f3 show ?thesis by auto
  next
    case False
    with assms r2 have "(c, st') = (c2, st2)"
      unfolding withoutReactions_def r_def[symmetric] by (cases c2) auto
    with f2 show ?thesis by auto
  qed
qed

lemma withReactions_frame:
  assumes "withReactions f cl sc m own st = (c, st')"
  shows "processedMessages st' = processedMessages st \<and> (c = Break \<longrightarrow> cursor st' = None)"
proof -
  define r where "r = (if \<not> own then mirrorStep cl sc (tsOf m) st
            else (Next, st\<lparr>totalSkippedOwn := totalSkippedOwn st + 1\<rparr>))"
  obtain c2 st2 where r2: "r = (c2, st2)" by (cases r)
  have f2: "processedMessages st2 = processedMessages st \<and> c2 \<noteq> Break"
  proof (cases own)
    case False
    with r2 have "mirrorStep cl sc (tsOf m) st = (c2, st2)" by (simp add: r_def)
    from mirrorStep_frame[OF this] show ?thesis by blast
  next
    case True
    with r2 show ?thesis by (auto simp: r_def)
  qed
  show ?thesis
  proof (cases "c2 = Next")
    case True
    obtain c3 st3 where t: "threadPart f cl sc m st2 = (c3, st3)" by (cases "threadPart f cl sc m st2")
    note f3 = threadPart_frame[OF t]
    show ?thesis
    proof (cases "c3 = Next \<or> c3 = Break")
      case True
      with assms r2 \<open>c2 = Next\<close> t have "breakIfAddsReached sc (Next, st3) = (c, st')"
        unfolding withReactions_def r_def[symmetric] by auto
      from breakIfAddsReached_cases[OF this] f2 f3 show ?thesis by auto
    next
      case False
      with assms r2 \<open>c2 = Next\<close> t have "(c, st') = (c3, st3)"
        unfolding withReactions_def r_def[symmetric] by (cases c3) auto
      with f2 f3 False show ?thesis by auto
    qed
  next
    case False
    with assms r2 have "(c, st') = (c2, st2)"
      unfolding withReactions_def r_def[symmetric] by (cases c2) auto
    with f2 show ?thesis by auto
  qed
qed

lemma withoutReactions_adds:
  assumes "\<not> includeThreadReplies (args sc)"
    and "withoutReactions f cl sc m own st = (Next, st')"
  shows "totalAdds st' = totalAdds st \<or> \<not> addsReached sc st'"
proof -
  define r where "r = (if addDefaultReactions (args sc) \<and> \<not> own
            then breakIfAddsReached sc (defaultStep cl sc (tsOf m) st)
            else if own then (Next, st\<lparr>totalSkippedOwn := totalSkippedOwn st + 1\<rparr>)
            else (Next, st))"
  obtain c2 st2 where r2: "r = (c2, st2)" by (cases r)
  from assms r2 have n: "c2 = Next \<and> st' = st2"
    unfolding withoutReactions_def r_def[symmetric] by (cases c2) (auto simp: threadPart_off)
  show ?thesis
  proof (cases "addDefaultReactions (args sc) \<and> \<not> own")
    case True
    with r2 have "breakIfAddsReached sc (defaultStep cl sc (tsOf m) st) = (c2, st2)"
      by (simp add: r_def)
    from checked_step_frame[OF this] n show ?thesis by blast
  next
    case False
    with r2 n show ?thesis by (auto simp: r_def split: if_splits)
  qed
qed

lemma withReactions_adds:
  assumes "\<not> includeThreadReplies (args sc)"
    and "withReactions f cl sc m own st = (Next, st')"
  shows "\<not> addsReached sc st'"
proof -
  define r where "r = (if \<not> own then mirrorStep cl sc (tsOf m) st
            else (Next, st\<lparr>totalSkippedOwn := totalSkippedOwn st + 1\<rparr>))"
  obtain c2 st2 where r2: "r = (c2, st2)" by (cases r)
  from assms r2 have "c2 = Next \<and> breakIfAddsReached sc (Next, st2) = (Next, st')"
    unfolding withReactions_def r_def[symmetric] by (cases c2) (auto simp: threadPart_off)
  then have "breakIfAddsReached sc (Next, st2) = (Next, st')" by simp
  from breakIfAddsReached_cases[OF this] show ?thesis by auto
qed

lemma messageBody_frame:
  assumes "messageBody f cl sc m st = (c, st')"
  shows "(c = Break \<longrightarrow> cursor st' = None)
    \<and> (processedMessages st' = processedMessages st
       \<or> processedMessages st' = processedMessages st + 1 \<and> (c = Next \<longrightarrow> \<not> messagesExceeded sc st'))"
proof (cases "tsOf m = []")
  case True
  with assms show ?thesis by (auto simp: messageBody_def)
next
  case ts: False
  let ?st1 = "st\<lparr>processedMessages := processedMessages st + 1\<rparr>"
  show ?thesis
  proof (cases "messagesExceeded sc ?st1")
    case True
    with ts assms show ?thesis by (auto simp: messageBody_def Let_def)
  next
    case ne: False
    let ?own = "skip (shouldSkipMessage m (skipCfg sc))"
    have "withoutReactions f cl sc m ?own ?st1 = (c, st') \<or> withReactions f cl sc m ?own ?st1 = (c, st')"
      using assms ts ne by (auto simp: messageBody_def Let_def split: if_splits)
    then have "processedMessages st' = processedMessages ?st1 \<and> (c = Break \<longrightarrow> cursor st' = None)"
      using withoutReactions_frame withReactions_frame by blast
    moreover from this ne have "\<not> messagesExceeded sc st'"
      using messagesExceeded_cong[of st' ?st1 sc] by simp
    ultimately show ?thesis by simp
  qed
qed

lemma messageBody_adds:
  assumes "\<not> includeThreadReplies (args sc)"
    and "messageBody f cl sc m st = (Next, st')"
  shows "totalAdds st' = totalAdds st \<or> \<not> addsReached sc st'"
proof (cases "tsOf m = []")
  case True
  with assms show ?thesis by (auto simp: messageBody_def)
next
  case ts: False
  let ?st1 = "st\<lparr>processedMessages := processedMessages st + 1\<rparr>"
  let ?own = "skip (shouldSkipMessage m (skipCfg sc))"
  have "withoutReactions f cl sc m ?own ?st1 = (Next, st') \<or> withReactions f cl sc m ?own ?st1 = (Next, st')"
    using assms ts by (auto simp: messageBody_def Let_def split: if_splits)
  then show ?thesis
    using withoutReactions_adds[OF assms(1), of f cl m ?own ?st1 st']
      withReactions_adds[OF assms(1), of f cl m ?own ?st1 st'] by auto
qed

lemma messagesLoop_break:
  "messagesLoop f cl sc ms st = (Break, st') \<Longrightarrow> cursor st' = None"
proof (induction ms arbitrary: st)
  case Nil
  then show ?case by simp
next
  case (Cons m ms)
  obtain c1 st1 where b: "messageBody f cl sc m st = (c1, st1)" by (cases "messageBody f cl sc m st")
  show ?case
  proof (cases "c1 = Next")
    case True
    with Cons.prems b have "messagesLoop f cl sc ms st1 = (Break, st')" by simp
    from Cons.IH[OF this] show ?thesis .
  next
    case False
    with Cons.prems b have "(c1, st1) = (Break, st')" by (cases c1) auto
    with messageBody_frame[OF b] show ?thesis by auto
  qed
qed

lemma messagesLoop_within:
  assumes "\<not> includeThreadReplies (args sc)"
  shows "messagesLoop f cl sc ms st = (Next, st') \<Longrightarrow>
    (processedMessages st' = processedMessages st \<or> \<not> messagesExceeded sc st')
    \<and> (totalAdds st' = totalAdds st \<or> \<not> addsReached sc st')"
proof (induction ms arbitrary: st)
  case Nil
  then show ?case by simp
next
  case (Cons m ms)
  obtain c1 st1 where b: "messageBody f cl sc m st = (c1, st1)" by (cases "messageBody f cl sc m st")
  with Cons.prems have n: "c1 = Next" and r: "messagesLoop f cl sc ms st1 = (Next, st')"
    by (cases c1; simp)+
  from messageBody_frame[OF b] n
  have p1: "processedMessages st1 = processedMessages st \<or> \<not> messagesExceeded sc st1" by auto
  from messageBody_adds[OF assms b[unfolded n]]
  have a1: "totalAdds st1 = totalAdds st \<or> \<not> addsReached sc st1" .
  from Cons.IH[OF r]
  have p2: "processedMessages st' = processedMessages st1 \<or> \<not> messagesExceeded sc st'"
    and a2: "totalAdds st' = totalAdds st1 \<or> \<not> addsReached sc st'" by auto
  from p1 p2 have "processedMessages st' = processedMessages st \<or> \<not> messagesExceeded sc st'"
    using messagesExceeded_cong[of st' st1 sc] by auto
  moreover from a1 a2 have "totalAdds st' = totalAdds st \<or> \<not> addsReached sc st'"
    using addsReached_cong[of st' st1 sc] by auto
  ultimately show ?case by simp
qed

lemma messagesLoop_processed_bound:
  assumes mm: "maxMessages (args sc) = Some n"
  shows "int (processedMessages st) \<le> n \<Longrightarrow> messagesLoop f cl sc ms st = (c, st') \<Longrightarrow>
    int (processedMessages st') \<le> n + 1 \<and> (c = Next \<longrightarrow> int (processedMessages st') \<le> n)"
proof (induction ms arbitrary: st)
  case Nil
  then show ?case by auto
next
  case (Cons m ms)
  obtain c1 st1 where b: "messageBody f cl sc m st = (c1, st1)" by (cases "messageBody f cl sc m st")
  from messageBody_frame[OF b] Cons.prems(1) mm
  have p: "int (processedMessages st1) \<le> n + 1 \<and> (c1 = Next \<longrightarrow> int (processedMessages st1) \<le> n)"
    by (auto simp: messagesExceeded_def)
  show ?case
  proof (cases "c1 = Next")
    case True
    with Cons.prems b have "messagesLoop f cl sc ms st1 = (c, st')" by simp
    from Cons.IH[OF _ this] p True show ?thesis by simp
  next
    case False
    with Cons.prems b have "(c, st') = (c1, st1)" by (cases c1) auto
    with p False show ?thesis by auto
  qed
qed

lemma mainLoop_processed_bound:
  assumes mm: "maxMessages (args sc) = Some n"
  shows "int (processedMessages st) \<le> n \<Longrightarrow>
    int (processedMessages (snd (mainLoop f tf cl sc st))) \<le> n + 1"
proof (induction f arbitrary: st)
  case 0
  then show ?case by simp
next
  case (Suc f)
  let ?tr1 = "trace st @ [ConversationsHistory (scanChannel sc) (scanOldest sc) (scanLatest sc) (cursor st)]"
  show ?case
  proof (cases "withRateLimitRetry (conversations_history cl (trace st) (scanChannel sc) (scanOldest sc) (scanLatest sc) (cursor st))")
    case (Returned res)
    let ?st0 = "st\<lparr>cursor := orUndefined (next_cursor res), trace := ?tr1\<rparr>"
    obtain c st' where l: "messagesLoop tf cl sc (messages res) ?st0 = (c, st')"
      by (cases "messagesLoop tf cl sc (messages res) ?st0")
    from messagesLoop_processed_bound[OF mm _ l] Suc.prems
    have p: "int (processedMessages st') \<le> n + 1 \<and> (c = Next \<longrightarrow> int (processedMessages st') \<le> n)"
      by simp
    show ?thesis
    proof (cases c)
      case Next
      show ?thesis
      proof (cases "cursor st'")
        case None
        with Returned l Next p show ?thesis by (simp add: Let_def)
      next
        case (Some cur)
        with Returned l Next have "mainLoop (Suc f) tf cl sc st = mainLoop f tf cl sc st'"
          by (simp add: Let_def)
        with Suc.IH[of st'] p Next show ?thesis by simp
      qed
    next
      case Break
      with l have "cursor st' = None" using messagesLoop_break by blast
      with Returned l Break p show ?thesis by (simp add: Let_def)
    qed (use Returned l p in \<open>simp_all add: Let_def\<close>)
  qed (use Suc.prems in \<open>simp_all add: Let_def\<close>)
qed

lemma messagesLoop_exceeded:
  assumes mm: "maxMessages (args sc) = Some n"
    and reached: "n \<le> int (processedMessages st)" and ts: "tsOf m \<noteq> []"
  shows "messagesLoop f cl sc (m # rest) st
    = (Break, st\<lparr>processedMessages := processedMessages st + 1, cursor := None\<rparr>)"
  using assms by (simp add: messageBody_def messagesExceeded_def Let_def)

lemma mainLoop_after_break:
  assumes "withRateLimitRetry (conversations_history cl (trace st) (scanChannel sc) (scanOldest sc) (scanLatest sc) (cursor st))
      = Returned res"
    and "messagesLoop tf cl sc (messages res)
      (st\<lparr>cursor := orUndefined (next_cursor res),
          trace := trace st @ [ConversationsHistory (scanChannel sc) (scanOldest sc) (scanLatest sc)
            (cursor st)]\<rparr>) = (Break, st1)"
  shows "mainLoop (Suc f) tf cl sc st = (Next, st1)"
  using assms messagesLoop_break[OF assms(2)] by (simp add: Let_def)

lemma messageBody_other_adds:
  assumes noThreads: "\<not> includeThreadReplies (args sc)"
    and b: "messageBody f cl sc m st = (c, st')" and "c \<noteq> Next" and "c \<noteq> Break"
  shows "totalAdds st' = totalAdds st"
proof (cases "tsOf m = []")
  case True
  with assms show ?thesis by (auto simp: messageBody_def)
next
  case ts: False
  let ?st1 = "st\<lparr>processedMessages := processedMessages st + 1\<rparr>"
  let ?own = "skip (shouldSkipMessage m (skipCfg sc))"
  have ne: "\<not> messagesExceeded sc ?st1"
    using assms ts by (auto simp: messageBody_def Let_def split: if_splits)
  show ?thesis
  proof (cases "reactionsOf m = []")
    case True
    with b ts ne have w: "withoutReactions f cl sc m ?own ?st1 = (c, st')"
      by (simp add: messageBody_def Let_def)
    show ?thesis
    proof (cases "addDefaultReactions (args sc) \<and> \<not> ?own")
      case True
      obtain c0 st0 where d: "defaultStep cl sc (tsOf m) ?st1 = (c0, st0)"
        by (cases "defaultStep cl sc (tsOf m) ?st1")
      from w True d noThreads assms(3,4) have "c0 = c \<and> st0 = st'"
        by (cases c0) (auto simp: withoutReactions_def breakIfAddsReached_def threadPart_off
            split: if_splits)
      with defaultStep_frame[OF d] assms(3) show ?thesis by auto
    next
      case False
      with w noThreads assms(3,4) show ?thesis
        by (auto simp: withoutReactions_def threadPart_off split: if_splits)
    qed
  next
    case False
    with b ts ne have w: "withReactions f cl sc m ?own ?st1 = (c, st')"
      by (simp add: messageBody_def Let_def)
    show ?thesis
    proof (cases ?own)
      case False
      obtain c0 st0 where d: "mirrorStep cl sc (tsOf m) ?st1 = (c0, st0)"
        by (cases "mirrorStep cl sc (tsOf m) ?st1")
      from w False d noThreads assms(3,4) have "c0 = c \<and> st0 = st'"
        by (cases c0) (auto simp: withReactions_def breakIfAddsReached_def threadPart_off
            split: if_splits)
      with mirrorStep_frame[OF d] assms(3) show ?thesis by auto
    next
      case True
      with w noThreads assms(3,4) show ?thesis
        by (auto simp: withReactions_def breakIfAddsReached_def threadPart_off split: if_splits)
    qed
  qed
qed

lemma messageBody_reached:
  assumes noThreads: "\<not> includeThreadReplies (args sc)"
    and "\<not> addsReached sc st" and b: "messageBody f cl sc m st = (c, st')"
    and "addsReached sc st'"
  shows "c = Break"
proof (rule ccontr)
  assume nb: "c \<noteq> Break"
  have "totalAdds st' = totalAdds st \<or> \<not> addsReached sc st'"
  proof (cases "c = Next")
    case True
    with messageBody_adds[OF noThreads] b show ?thesis by blast
  next
    case False
    with messageBody_other_adds[OF noThreads b] nb show ?thesis by blast
  qed
  with assms(2,4) addsReached_cong[of st' st sc] show False by auto
qed

lemma messagesLoop_reached:
  assumes noThreads: "\<not> includeThreadReplies (args sc)"
  shows "\<not> addsReached sc st \<Longrightarrow> messagesLoop f cl sc ms st = (c, st') \<Longrightarrow>
    addsReached sc st' \<Longrightarrow> c = Break"
proof (induction ms arbitrary: st)
  case Nil
  then show ?case by auto
next
  case (Cons m ms)
  obtain c1 st1 where b: "messageBody f cl sc m st = (c1, st1)" by (cases "messageBody f cl sc m st")
  show ?case
  proof (cases "c1 = Next")
    case True
    with Cons.prems b have l: "messagesLoop f cl sc ms st1 = (c, st')" by simp
    have "\<not> addsReached sc st1"
      using messageBody_reached[OF noThreads Cons.prems(1) b] True by auto
    from Cons.IH[OF this l Cons.prems(3)] show ?thesis .
  next
    case False
    with Cons.prems b have e: "(c, st') = (c1, st1)" by (cases c1) auto
    with messageBody_reached[OF noThreads Cons.prems(1) b] Cons.prems(3) show ?thesis by auto
  qed
qed

lemma mainLoop_reached:
  assumes noThreads: "\<not> includeThreadReplies (args sc)"
  shows "\<not> addsReached sc st \<Longrightarrow> addsReached sc (snd (mainLoop f tf cl sc st)) \<Longrightarrow>
    fst (mainLoop f tf cl sc st) = Next \<and> cursor (snd (mainLoop f tf cl sc st)) = None"
proof (induction f arbitrary: st)
  case 0
  then show ?case by simp
next
  case (Suc f)
  let ?tr1 = "trace st @ [ConversationsHistory (scanChannel sc) (scanOldest sc) (scanLatest sc) (cursor st)]"
  show ?case
  proof (cases "withRateLimitRetry (conversations_history cl (trace st) (scanChannel sc) (scanOldest sc) (scanLatest sc) (cursor st))")
    case (Returned res)
    let ?st0 = "st\<lparr>cursor := orUndefined (next_cursor res), trace := ?tr1\<rparr>"
    obtain c st' where l: "messagesLoop tf cl sc (messages res) ?st0 = (c, st')"
      by (cases "messagesLoop tf cl sc (messages res) ?st0")
    have n0: "\<not> addsReached sc ?st0"
      using Suc.prems(1) by (simp add: addsReached_def split: option.splits)
    note r = messagesLoop_reached[OF noThreads n0 l]
    show ?thesis
    proof (cases c)
      case Next
      show ?thesis
      proof (cases "cursor st'")
        case None
        with Returned l Next show ?thesis by (simp add: Let_def)
      next
        case (Some cur)
        with Returned l Next have e: "mainLoop (Suc f) tf cl sc st = mainLoop f tf cl sc st'"
          by (simp add: Let_def)
        have "\<not> addsReached sc st'" using r Next by auto
        from Suc.IH[OF this] Suc.prems(2) e show ?thesis by simp
      qed
    next
      case Break
      with l have "cursor st' = None" using messagesLoop_break by blast
      with Returned l Break show ?thesis by (simp add: Let_def)
    next
      case (Raise x)
      with Returned l have "mainLoop (Suc f) tf cl sc st = (c, st')" by (simp add: Let_def)
      with Suc.prems(2) r Raise show ?thesis by auto
    next
      case Stuck
      with Returned l have "mainLoop (Suc f) tf cl sc st = (c, st')" by (simp add: Let_def)
      with Suc.prems(2) r Stuck show ?thesis by auto
    next
      case OutOfFuel
      with Returned l have "mainLoop (Suc f) tf cl sc st = (c, st')" by (simp add: Let_def)
      with Suc.prems(2) r OutOfFuel show ?thesis by auto
    qed
  next
    case (Threw x)
    with Suc.prems show ?thesis by (simp add: Let_def addsReached_def split: option.splits)
  next
    case NoReturn
    with Suc.prems show ?thesis by (simp add: Let_def addsReached_def split: option.splits)
  qed
qed

lemma messagesLoop_mirror_break:
  assumes noThreads: "\<not> includeThreadReplies (args sc)"
    and ts: "tsOf m \<noteq> []"
    and ne: "\<not> messagesExceeded sc (st\<lparr>processedMessages := processedMessages st + 1\<rparr>)"
    and hr: "reactionsOf m \<noteq> []"
    and notOwn: "\<not> skip (shouldSkipMessage m (skipCfg sc))"
    and run: "mirrorReactionsForMessage cl (scanChannel sc) (tsOf m) (authedUserId sc) (skipCfg sc)
        (reactionFilterCfg sc) (dryRun (args sc)) (trace st) = (Returned r, tr)"
    and mk: "maxReactionsAdds (args sc) = Some k"
    and reached: "k \<le> int (totalAdds st + added r)"
  shows "messagesLoop tf cl sc (m # rest) st
    = (Break, (countMirror (st\<lparr>processedMessages := processedMessages st + 1\<rparr>) r tr)\<lparr>cursor := None\<rparr>)"
  using assms
  by (simp add: messageBody_def withReactions_def mirrorStep_def threadPart_off
      breakIfAddsReached_def addsReached_def countMirror_def Let_def)

lemma messagesLoop_default_break:
  assumes noThreads: "\<not> includeThreadReplies (args sc)"
    and ts: "tsOf m \<noteq> []"
    and ne: "\<not> messagesExceeded sc (st\<lparr>processedMessages := processedMessages st + 1\<rparr>)"
    and hr: "reactionsOf m = []"
    and dflt: "addDefaultReactions (args sc)"
    and notOwn: "\<not> skip (shouldSkipMessage m (skipCfg sc))"
    and run: "addDefaultReactionsForMessage cl (scanChannel sc) (tsOf m) (defaultReactionNames sc)
        (skipCfg sc) (reactionFilterCfg sc) (dryRun (args sc)) (trace st) = (Returned r, tr)"
    and mk: "maxReactionsAdds (args sc) = Some k"
    and reached: "k \<le> int (totalAdds st + added r)"
  shows "messagesLoop tf cl sc (m # rest) st
    = (Break, (countDefault (st\<lparr>processedMessages := processedMessages st + 1\<rparr>) r tr)\<lparr>cursor := None\<rparr>)"
  using assms
  by (simp add: messageBody_def withoutReactions_def defaultStep_def threadPart_off
      breakIfAddsReached_def addsReached_def countDefault_def Let_def)

subsection \<open>The expressions of \<open>parseTime\<close>\<close>

lemma numeric_not_matched:
  "\<not> rx_test epochSecondsRx False ''1735689600''"
  "\<not> rx_test dateOnlyRx False ''1735689600''"
  "\<not> rx_test dateOnlyRx False ''2026-01-29''"
  "\<not> rx_test epochSecondsRx False ''2026-01-29''"
  by (simp_all add: rx_test_def epochSecondsRx_def dateOnlyRx_def one_def backslash_def)

subsection \<open>The claims\<close>

text \<open>
  C1 (as the code behaves): the skin-tone variant \<open>raised_hands::skin-tone-3\<close> is left
  unchanged by \<open>canonicalizeReactionName\<close>, since the expressions ask for a backslash and
  the letter \<open>d\<close> where the comment in the source promises digits; the variant and the plain
  name \<open>raised_hands\<close> are therefore not mapped to the same name.
\<close>

theorem canonicalize_skin_tone_variant_unchanged:
  "canonicalizeReactionName ''raised_hands::skin-tone-3'' = ''raised_hands::skin-tone-3''
   \<and> canonicalizeReactionName ''raised_hands'' = ''raised_hands''
   \<and> canonicalizeReactionName ''raised_hands::skin-tone-3''
       \<noteq> canonicalizeReactionName ''raised_hands''"
  by (simp add: canonicalizeReactionName_def replaceAll_def skinTone1_def skinTone2_def
      one_def backslash_def)

text \<open>
  C2: when the fetched message is an object whose \<open>user\<close> is the string \<open>skipUserId\<close> of
  the skip configuration, \<open>shouldSkipMessage\<close> answers \<open>skip = true\<close> with the reason
  \<open>author_user_id\<close>, and neither \<open>mirrorReactionsForMessage\<close> nor
  \<open>addDefaultReactionsForMessage\<close> emits an add-action, whatever the reactions, the content,
  the filter, the default names and the dry-run flag are.
\<close>

theorem author_skip_emits_no_adds:
  assumes author: "getProp message ''user'' = JStr (skipUserId scfg)"
    and fetched: "withRateLimitRetry (reactions_get client tr chan mts) = Returned message"
  shows "shouldSkipMessage message scfg = \<lparr>skip = True, reason = Some ''author_user_id''\<rparr>
    \<and> newAdds tr (snd (mirrorReactionsForMessage client chan mts me scfg
          fcfg dry tr)) = []
    \<and> newAdds tr (snd (addDefaultReactionsForMessage client chan mts defaultNames scfg
          fcfg dry' tr)) = []"
proof -
  from author obtain fs where obj: "message = JObj fs"
    by (cases message) auto
  with author have sk: "shouldSkipMessage message scfg = \<lparr>skip = True, reason = Some ''author_user_id''\<rparr>"
    by (simp add: shouldSkipMessage_def)
  obtain evs where e: "snd (mirrorReactionsForMessage client chan mts me scfg
          fcfg dry tr) = tr @ evs"
    and a: "set (addActions evs) \<subseteq> {c. truthy message \<and> \<not> skip (shouldSkipMessage message scfg)
                \<and> c \<in> set (snd (collectCanonicals (reactionsOf message) me ([], [])))
                \<and> c \<notin> set (fst (collectCanonicals (reactionsOf message) me ([], [])))
                \<and> \<not> isReactionBlocked c fcfg}"
    using mirror_trace[of client chan mts me scfg fcfg dry tr] fetched
    by blast
  from a sk have m: "addActions evs = []" by auto
  obtain evs' where e': "snd (addDefaultReactionsForMessage client chan mts defaultNames scfg
          fcfg dry' tr) = tr @ evs'"
    and a': "set (addActions evs') \<subseteq> {n. truthy message \<and> \<not> skip (shouldSkipMessage message scfg)
                \<and> reactionsOf message = [] \<and> n \<in> set defaultNames \<and> \<not> isReactionBlocked n fcfg}"
    using addDefault_trace[of client chan mts defaultNames scfg fcfg dry' tr] fetched
    by blast
  from a' sk have d: "addActions evs' = []" by auto
  from sk e m e' d show ?thesis by (simp add: newAdds_append)
qed

text \<open>C2 at a message of account \<open>U1\<close> that carries a reaction of somebody else.\<close>

theorem author_skip_emits_no_adds_witness:
  "getProp (JObj [(''user'', JStr ''U1''), (''reactions'',
        JArr [JObj [(''name'', JStr ''rocket''), (''users'', JArr [JStr ''U3''])]])]) ''user''
     = JStr (skipUserId (plainSkipCfg ''U1''))
   \<and> shouldSkipMessage (JObj [(''user'', JStr ''U1''), (''reactions'',
        JArr [JObj [(''name'', JStr ''rocket''), (''users'', JArr [JStr ''U3''])]])]) (plainSkipCfg ''U1'')
       = \<lparr>skip = True, reason = Some ''author_user_id''\<rparr>
   \<and> newAdds [] (snd (mirrorReactionsForMessage
        (constClient (JObj [(''user'', JStr ''U1''), (''reactions'',
           JArr [JObj [(''name'', JStr ''rocket''), (''users'', JArr [JStr ''U3''])]])]) (Succeeds ()))
        ''C1'' ''1.0'' ''U1'' (plainSkipCfg ''U1'') (exactFilter {}) False [])) = []
   \<and> newAdds [] (snd (addDefaultReactionsForMessage
        (constClient (JObj [(''user'', JStr ''U1''), (''reactions'',
           JArr [JObj [(''name'', JStr ''rocket''), (''users'', JArr [JStr ''U3''])]])]) (Succeeds ()))
        ''C1'' ''1.0'' [''rocket''] (plainSkipCfg ''U1'') (exactFilter {}) False [])) = []"
proof -
  let ?m = "JObj [(''user'', JStr ''U1''), (''reactions'',
        JArr [JObj [(''name'', JStr ''rocket''), (''users'', JArr [JStr ''U3''])]])]"
  have h1: "getProp ?m ''user'' = JStr (skipUserId (plainSkipCfg ''U1''))"
    by (simp add: plainSkipCfg_def)
  have h2: "withRateLimitRetry (reactions_get (constClient ?m (Succeeds ())) [] ''C1'' ''1.0'') = Returned ?m"
    by (simp add: constClient_def)
  from author_skip_emits_no_adds[OF h1 h2, of "''U1''" "exactFilter {}" False "[''rocket'']" False] h1
  show ?thesis by simp
qed

text \<open>
  C3 (as the code behaves): on a message where the acting account \<open>U1\<close> holds
  \<open>thumbsup::skin-tone-2\<close> and account \<open>U3\<close> holds \<open>thumbsup\<close>, \<open>mirrorReactionsForMessage\<close>
  issues \<open>reactions.add\<close> for \<open>thumbsup\<close> and counts one add. The acting account already
  has that reaction under the name without the skin-tone suffix, but the set of names it
  already has is built with \<open>canonicalizeReactionName\<close>, which leaves
  \<open>thumbsup::skin-tone-2\<close> as it is; only the variant itself is counted as already reacted.
\<close>

theorem variant_reaction_added_again:
  "usersInclude (JObj [(''name'', JStr ''thumbsup::skin-tone-2''), (''users'', JArr [JStr ''U1''])]) ''U1''
   \<and> JObj [(''name'', JStr ''thumbsup::skin-tone-2''), (''users'', JArr [JStr ''U1''])]
        \<in> set (reactionsOf variantMessage)
   \<and> mirrorReactionsForMessage (constClient variantMessage (Succeeds ())) ''C1'' ''1.0'' ''U1''
        (plainSkipCfg ''U1'') (exactFilter {}) False []
      = (Returned \<lparr>added = 1, skippedAlreadyReacted = 1, skippedOwnMessage = 0,
           skippedBlacklisted = 0\<rparr>,
         [ReactionsGet ''C1'' ''1.0'', ReactionsAdd ''thumbsup'' ''C1'' ''1.0'',
          LogAdded ''thumbsup'' ''C1'' ''1.0''])"
  by code_simp

text \<open>
  C4: a name that \<open>isReactionBlocked\<close> blocks (its trimmed, lower-case form is in the exact
  set, or contains one of the substrings, or matches the expression) is never the name of an
  add-action of \<open>mirrorReactionsForMessage\<close> or of \<open>addDefaultReactionsForMessage\<close>,
  whatever the service answers.
\<close>

theorem blocked_name_never_added:
  assumes blocked: "isReactionBlocked name fcfg"
  shows "name \<notin> set (newAdds tr (snd (mirrorReactionsForMessage client chan mts me
                 scfg fcfg dry tr)))
    \<and> name \<notin> set (newAdds tr (snd (addDefaultReactionsForMessage client chan mts
                 defaultNames scfg fcfg dry tr)))"
proof -
  obtain evs where e: "snd (mirrorReactionsForMessage client chan mts me scfg
          fcfg dry tr) = tr @ evs"
    and a: "\<forall>m. withRateLimitRetry (reactions_get client tr chan mts) = Returned m \<longrightarrow>
          set (addActions evs) \<subseteq>
            {c. truthy m \<and> \<not> skip (shouldSkipMessage m scfg)
                \<and> c \<in> set (snd (collectCanonicals (reactionsOf m) me ([], [])))
                \<and> c \<notin> set (fst (collectCanonicals (reactionsOf m) me ([], [])))
                \<and> \<not> isReactionBlocked c fcfg}"
    and b: "(\<forall>m. withRateLimitRetry (reactions_get client tr chan mts) \<noteq> Returned m) \<longrightarrow> addActions evs = []"
    using mirror_trace[of client chan mts me scfg fcfg dry tr]
    by blast
  have m: "name \<notin> set (addActions evs)"
  proof (cases "withRateLimitRetry (reactions_get client tr chan mts)")
    case (Returned m)
    with a blocked show ?thesis by auto
  next
    case (Threw x)
    with b show ?thesis by simp
  next
    case NoReturn
    with b show ?thesis by simp
  qed
  obtain evs' where e': "snd (addDefaultReactionsForMessage client chan mts defaultNames scfg
          fcfg dry tr) = tr @ evs'"
    and a': "\<forall>m. withRateLimitRetry (reactions_get client tr chan mts) = Returned m \<longrightarrow>
          set (addActions evs') \<subseteq>
            {n. truthy m \<and> \<not> skip (shouldSkipMessage m scfg) \<and> reactionsOf m = []
                \<and> n \<in> set defaultNames \<and> \<not> isReactionBlocked n fcfg}"
    and b': "(\<forall>m. withRateLimitRetry (reactions_get client tr chan mts) \<noteq> Returned m) \<longrightarrow> addActions evs' = []"
    using addDefault_trace[of client chan mts defaultNames scfg fcfg dry tr]
    by blast
  have d: "name \<notin> set (addActions evs')"
  proof (cases "withRateLimitRetry (reactions_get client tr chan mts)")
    case (Returned m)
    with a' blocked show ?thesis by auto
  next
    case (Threw x)
    with b' show ?thesis by simp
  next
    case NoReturn
    with b' show ?thesis by simp
  qed
  from e m e' d show ?thesis by (simp add: newAdds_append)
qed

text \<open>C4 with \<open>rocket\<close> on the exact list: of the two reactions only \<open>tada\<close> is mirrored.\<close>

theorem blocked_name_never_added_witness:
  "isReactionBlocked ''rocket'' (exactFilter {''rocket''})
   \<and> ''rocket'' \<notin> set (newAdds [] (snd (mirrorReactionsForMessage (constClient reactedMessage (Succeeds ()))
         ''C1'' ''1.0'' ''U9'' (plainSkipCfg ''U9'') (exactFilter {''rocket''}) False [])))
   \<and> ''rocket'' \<notin> set (newAdds [] (snd (addDefaultReactionsForMessage
         (constClient reactedMessage (Succeeds ()))
         ''C1'' ''1.0'' [''rocket'', ''v''] (plainSkipCfg ''U9'') (exactFilter {''rocket''}) False [])))
   \<and> newAdds [] (snd (mirrorReactionsForMessage (constClient reactedMessage (Succeeds ()))
         ''C1'' ''1.0'' ''U9'' (plainSkipCfg ''U9'') (exactFilter {''rocket''}) False [])) = [''tada'']"
proof -
  have h: "isReactionBlocked ''rocket'' (exactFilter {''rocket''})"
    by code_simp
  have run: "newAdds [] (snd (mirrorReactionsForMessage (constClient reactedMessage (Succeeds ()))
         ''C1'' ''1.0'' ''U9'' (plainSkipCfg ''U9'') (exactFilter {''rocket''}) False [])) = [''tada'']"
    by code_simp
  from blocked_name_never_added[OF h, of "[]" "constClient reactedMessage (Succeeds ())" "''C1''" "''1.0''"
      "''U9''" "plainSkipCfg ''U9''" False "[''rocket'', ''v'']"] h run
  show ?thesis by blast
qed

text \<open>
  C5: for a fetched message without reactions that no skip rule matches, with the default
  names \<open>rocket,v\<close> (the list \<open>[rocket, v]\<close>) and a filter whose only entry is the exact name
  \<open>v\<close>, \<open>addDefaultReactionsForMessage\<close> emits exactly one add-action, for \<open>rocket\<close>.
\<close>

theorem default_reactions_rocket_only:
  assumes fetched: "withRateLimitRetry (reactions_get client tr chan mts) = Returned message"
    and present: "truthy message"
    and bare: "reactionsOf message = []"
    and noskip: "\<not> skip (shouldSkipMessage message scfg)"
    and exact: "blacklistExact fcfg = {''v''}"
    and contains: "blacklistContains fcfg = []"
    and regex: "blacklistRegex fcfg = None"
  shows "defaultReactionNamesOf (Some ''rocket,v'') = [''rocket'', ''v'']
    \<and> newAdds tr (snd (addDefaultReactionsForMessage client chan mts
          (defaultReactionNamesOf (Some ''rocket,v'')) scfg fcfg dry tr)) = [''rocket'']"
proof -
  have names: "defaultReactionNamesOf (Some ''rocket,v'') = [''rocket'', ''v'']"
    by (simp add: defaultReactionNamesOf_def parseCommaList_def trim_def isSpace_def)
  note b = blocked_rocket_v[OF exact contains regex]
  have "snd (addDefaultReactionsForMessage client chan mts [''rocket'', ''v''] scfg
      fcfg dry tr)
    = snd (defaultLoop client chan mts fcfg dry [''rocket'', ''v''] noDefaults
        (tr @ [ReactionsGet chan mts]))"
    using fetched present bare noskip by (simp add: addDefaultReactionsForMessage_def Let_def)
  moreover have "newAdds tr (snd (defaultLoop client chan mts fcfg dry
      [''rocket'', ''v''] noDefaults (tr @ [ReactionsGet chan mts]))) = [''rocket'']"
    using b by (auto simp: newAdds_def split: outcome.splits)
  ultimately show ?thesis using names by simp
qed

text \<open>
  C5 at a message of another account with a plain text and no reactions, when the service
  answers every \<open>reactions.add\<close> with a rate limit first.
\<close>

theorem default_reactions_rocket_only_witness:
  "withRateLimitRetry (reactions_get (constClient plainMessage (RateLimited 1 (Succeeds ()))) [] ''C1'' ''1.0'') = Returned plainMessage
   \<and> truthy plainMessage \<and> reactionsOf plainMessage = []
   \<and> \<not> skip (shouldSkipMessage plainMessage (plainSkipCfg ''U1''))
   \<and> blacklistExact (exactFilter {''v''}) = {''v''}
   \<and> blacklistContains (exactFilter {''v''}) = []
   \<and> blacklistRegex (exactFilter {''v''}) = None
   \<and> newAdds [] (snd (addDefaultReactionsForMessage (constClient plainMessage (RateLimited 1 (Succeeds ()))) ''C1'' ''1.0''
          (defaultReactionNamesOf (Some ''rocket,v'')) (plainSkipCfg ''U1'') (exactFilter {''v''}) False []))
       = [''rocket'']"
proof -
  have h1: "withRateLimitRetry (reactions_get (constClient plainMessage (RateLimited 1 (Succeeds ()))) [] ''C1'' ''1.0'') = Returned plainMessage"
    by (simp add: constClient_def)
  have h2: "truthy plainMessage" by (simp add: plainMessage_def)
  have h3: "reactionsOf plainMessage = []" by (simp add: plainMessage_def reactionsOf_def)
  have h4: "\<not> skip (shouldSkipMessage plainMessage (plainSkipCfg ''U1''))" by code_simp
  have h5: "blacklistExact (exactFilter {''v''}) = {''v''}" by (simp add: exactFilter_def)
  have h6: "blacklistContains (exactFilter {''v''}) = []" by (simp add: exactFilter_def)
  have h7: "blacklistRegex (exactFilter {''v''}) = None" by (simp add: exactFilter_def)
  from default_reactions_rocket_only[OF h1 h2 h3 h4 h5 h6 h7, of False] h1 h2 h3 h4 h5 h6 h7
  show ?thesis by blast
qed

text \<open>
  C10: \<open>messageContentStrings\<close> is a total function (the walk ends on every value), its result
  has at most 600 strings, and it is the result for the value cut below level 8: nothing
  deeper than eight levels of arrays and objects is ever looked at.
\<close>

theorem message_walk_bounded:
  "length (messageContentStrings message) \<le> 600
   \<and> messageContentStrings (cutBelow 8 message) = messageContentStrings message"
  using collect_length(1)[of message "[]" 8 600] collect_cut(1)[of 8 message "[]" 600]
  by (simp add: messageContentStrings_def)

text \<open>
  C6 as stated fails twice. With \<open>--max-adds 1\<close> and one message that carries two reactions
  of other accounts, both are added: the budget is only looked at after the message, so two
  adds are attempted. With \<open>--max-messages 1\<close> and two pages of one message each, the second
  page is fetched although the counter has reached 1 with the first message: the loop only
  leaves when the counter exceeds the budget, at the first message of the second page.
\<close>

theorem budgets_not_immediate_counterexample:
  "maxReactionsAdds (args (budgetScan None (Some 1))) = Some 1
   \<and> mainLoop 5 5 (pagedClient onePage (always reactedMessage) (Succeeds ()))
        (budgetScan None (Some 1)) initialState
      = (Next, \<lparr>cursor = None, processedMessages = 1, totalAdds = 2, totalSkipped = 0,
           totalSkippedOwn = 0, totalSkippedHasReactions = 0, totalSkippedBlacklisted = 0,
           trace = [ConversationsHistory ''C1'' None None None, ReactionsGet ''C1'' ''1.0'',
             ReactionsAdd ''rocket'' ''C1'' ''1.0'', LogAdded ''rocket'' ''C1'' ''1.0'',
             ReactionsAdd ''tada'' ''C1'' ''1.0'', LogAdded ''tada'' ''C1'' ''1.0'']\<rparr>)
   \<and> maxMessages (args (budgetScan (Some 1) None)) = Some 1
   \<and> mainLoop 5 5 (pagedClient twoPages (always rocketMessage) (Succeeds ()))
        (budgetScan (Some 1) None) initialState
      = (Next, \<lparr>cursor = None, processedMessages = 2, totalAdds = 1, totalSkipped = 0,
           totalSkippedOwn = 0, totalSkippedHasReactions = 0, totalSkippedBlacklisted = 0,
           trace = [ConversationsHistory ''C1'' None None None, ReactionsGet ''C1'' ''1.0'',
             ReactionsAdd ''rocket'' ''C1'' ''1.0'', LogAdded ''rocket'' ''C1'' ''1.0'',
             ConversationsHistory ''C1'' None None (Some ''p2'')]\<rparr>)"
  by code_simp

text \<open>
  C6 (amended): in a scan without thread replies the budgets are tested between messages.
  When the processed-message counter has reached \<open>maxMessages\<close>, the next message that has a
  timestamp makes the loop over the page leave by \<open>break\<close> with the cursor cleared, before
  anything is done for it. When a message of another account has been reconciled (its
  reactions mirrored, or the default reactions added to a message without reactions) and the
  added counter has then reached \<open>maxAdds\<close>, the loop over the page leaves by \<open>break\<close> with
  the cursor cleared and the counters of that message recorded; the rest of the page is not
  looked at. The messages after a part of a page are handled exactly when the loop over that
  part ran to its end, and then each counter is within its budget (not above \<open>maxMessages\<close>,
  below \<open>maxAdds\<close>) unless it has not moved. After a \<open>break\<close> of the loop over a page
  \<open>main\<close>'s loop ends without another fetch. From a counter not above \<open>maxMessages\<close> the
  whole scan ends with the counter at most \<open>maxMessages + 1\<close>; and a scan that started below
  \<open>maxAdds\<close> and ends with the added counter at or above it has ended normally with the
  cursor cleared. Either budget may be absent. The adds of one message are not limited by
  \<open>maxAdds\<close>.
\<close>

theorem backfill_budgets_tested_between_messages:
  assumes noThreads: "\<not> includeThreadReplies (args sc)"
  shows "(tsOf m \<noteq> [] \<and> maxMessages (args sc) = Some n \<and> n \<le> int (processedMessages sM) \<longrightarrow>
        messagesLoop tf cl sc (m # rest) sM
          = (Break, sM\<lparr>processedMessages := processedMessages sM + 1, cursor := None\<rparr>))
    \<and> (tsOf m \<noteq> []
        \<and> \<not> messagesExceeded sc (sA\<lparr>processedMessages := processedMessages sA + 1\<rparr>)
        \<and> reactionsOf m \<noteq> [] \<and> \<not> skip (shouldSkipMessage m (skipCfg sc))
        \<and> mirrorReactionsForMessage cl (scanChannel sc) (tsOf m) (authedUserId sc) (skipCfg sc)
            (reactionFilterCfg sc) (dryRun (args sc)) (trace sA) = (Returned r, tr)
        \<and> maxReactionsAdds (args sc) = Some k \<and> k \<le> int (totalAdds sA + added r) \<longrightarrow>
        messagesLoop tf cl sc (m # rest) sA
          = (Break, (countMirror (sA\<lparr>processedMessages := processedMessages sA + 1\<rparr>) r tr)
                      \<lparr>cursor := None\<rparr>))
    \<and> (tsOf m \<noteq> []
        \<and> \<not> messagesExceeded sc (sD\<lparr>processedMessages := processedMessages sD + 1\<rparr>)
        \<and> reactionsOf m = [] \<and> addDefaultReactions (args sc)
        \<and> \<not> skip (shouldSkipMessage m (skipCfg sc))
        \<and> addDefaultReactionsForMessage cl (scanChannel sc) (tsOf m) (defaultReactionNames sc)
            (skipCfg sc) (reactionFilterCfg sc) (dryRun (args sc)) (trace sD) = (Returned d, trD)
        \<and> maxReactionsAdds (args sc) = Some k \<and> k \<le> int (totalAdds sD + added d) \<longrightarrow>
        messagesLoop tf cl sc (m # rest) sD
          = (Break, (countDefault (sD\<lparr>processedMessages := processedMessages sD + 1\<rparr>) d trD)
                      \<lparr>cursor := None\<rparr>))
    \<and> messagesLoop tf cl sc (pre @ post) sP
        = (case messagesLoop tf cl sc pre sP of
             (Next, s') \<Rightarrow> messagesLoop tf cl sc post s'
           | other \<Rightarrow> other)
    \<and> (messagesLoop tf cl sc pre sP = (Next, sQ) \<longrightarrow>
          (processedMessages sQ = processedMessages sP \<or> \<not> messagesExceeded sc sQ)
          \<and> (totalAdds sQ = totalAdds sP \<or> \<not> addsReached sc sQ))
    \<and> (withRateLimitRetry (conversations_history cl (trace sH) (scanChannel sc) (scanOldest sc) (scanLatest sc) (cursor sH))
          = Returned res
        \<and> messagesLoop tf cl sc (messages res)
            (sH\<lparr>cursor := orUndefined (next_cursor res),
                 trace := trace sH @ [ConversationsHistory (scanChannel sc) (scanOldest sc)
                   (scanLatest sc) (cursor sH)]\<rparr>) = (Break, sE)
        \<longrightarrow> mainLoop (Suc f) tf cl sc sH = (Next, sE))
    \<and> (maxMessages (args sc) = Some n \<and> int (processedMessages sF) \<le> n \<longrightarrow>
          int (processedMessages (snd (mainLoop g tf cl sc sF))) \<le> n + 1)
    \<and> (\<not> addsReached sc sI \<and> addsReached sc (snd (mainLoop h tf cl sc sI)) \<longrightarrow>
          fst (mainLoop h tf cl sc sI) = Next \<and> cursor (snd (mainLoop h tf cl sc sI)) = None)"
proof (intro conjI impI)
  assume "tsOf m \<noteq> [] \<and> maxMessages (args sc) = Some n \<and> n \<le> int (processedMessages sM)"
  then show "messagesLoop tf cl sc (m # rest) sM
      = (Break, sM\<lparr>processedMessages := processedMessages sM + 1, cursor := None\<rparr>)"
    using messagesLoop_exceeded by blast
next
  assume "tsOf m \<noteq> []
        \<and> \<not> messagesExceeded sc (sA\<lparr>processedMessages := processedMessages sA + 1\<rparr>)
        \<and> reactionsOf m \<noteq> [] \<and> \<not> skip (shouldSkipMessage m (skipCfg sc))
        \<and> mirrorReactionsForMessage cl (scanChannel sc) (tsOf m) (authedUserId sc) (skipCfg sc)
            (reactionFilterCfg sc) (dryRun (args sc)) (trace sA) = (Returned r, tr)
        \<and> maxReactionsAdds (args sc) = Some k \<and> k \<le> int (totalAdds sA + added r)"
  then show "messagesLoop tf cl sc (m # rest) sA
          = (Break, (countMirror (sA\<lparr>processedMessages := processedMessages sA + 1\<rparr>) r tr)
                      \<lparr>cursor := None\<rparr>)"
    using messagesLoop_mirror_break[OF noThreads] by blast
next
  assume "tsOf m \<noteq> []
        \<and> \<not> messagesExceeded sc (sD\<lparr>processedMessages := processedMessages sD + 1\<rparr>)
        \<and> reactionsOf m = [] \<and> addDefaultReactions (args sc)
        \<and> \<not> skip (shouldSkipMessage m (skipCfg sc))
        \<and> addDefaultReactionsForMessage cl (scanChannel sc) (tsOf m) (defaultReactionNames sc)
            (skipCfg sc) (reactionFilterCfg sc) (dryRun (args sc)) (trace sD) = (Returned d, trD)
        \<and> maxReactionsAdds (args sc) = Some k \<and> k \<le> int (totalAdds sD + added d)"
  then show "messagesLoop tf cl sc (m # rest) sD
          = (Break, (countDefault (sD\<lparr>processedMessages := processedMessages sD + 1\<rparr>) d trD)
                      \<lparr>cursor := None\<rparr>)"
    using messagesLoop_default_break[OF noThreads] by blast
next
  show "messagesLoop tf cl sc (pre @ post) sP
        = (case messagesLoop tf cl sc pre sP of
             (Next, s') \<Rightarrow> messagesLoop tf cl sc post s'
           | other \<Rightarrow> other)"
    by (rule messagesLoop_append)
next
  assume "messagesLoop tf cl sc pre sP = (Next, sQ)"
  from messagesLoop_within[OF noThreads this]
  show "processedMessages sQ = processedMessages sP \<or> \<not> messagesExceeded sc sQ"
    and "totalAdds sQ = totalAdds sP \<or> \<not> addsReached sc sQ"
    by blast+
next
  assume "withRateLimitRetry (conversations_history cl (trace sH) (scanChannel sc) (scanOldest sc) (scanLatest sc) (cursor sH))
          = Returned res
        \<and> messagesLoop tf cl sc (messages res)
            (sH\<lparr>cursor := orUndefined (next_cursor res),
                 trace := trace sH @ [ConversationsHistory (scanChannel sc) (scanOldest sc)
                   (scanLatest sc) (cursor sH)]\<rparr>) = (Break, sE)"
  then show "mainLoop (Suc f) tf cl sc sH = (Next, sE)"
    using mainLoop_after_break by blast
next
  assume "maxMessages (args sc) = Some n \<and> int (processedMessages sF) \<le> n"
  then show "int (processedMessages (snd (mainLoop g tf cl sc sF))) \<le> n + 1"
    using mainLoop_processed_bound by blast
next
  assume a: "\<not> addsReached sc sI \<and> addsReached sc (snd (mainLoop h tf cl sc sI))"
  with mainLoop_reached[OF noThreads, of sI h tf cl]
  show "fst (mainLoop h tf cl sc sI) = Next" and "cursor (snd (mainLoop h tf cl sc sI)) = None"
    by blast+
qed

text \<open>
  C6 (amended) at three scans. With only \<open>--max-adds 1\<close> over two pages of one message each,
  the first message gets its one reaction, the add budget is reached, and the scan ends
  without the second page. With \<open>--add-default-reactions --max-adds 1\<close> the four default
  reactions of the first message are added and the second message is not looked at. With only
  \<open>--max-messages 1\<close> the message after the first leaves the loop.
\<close>

theorem backfill_budgets_tested_between_messages_witness:
  "\<not> includeThreadReplies (args (budgetScan None (Some 1)))
   \<and> maxMessages (args (budgetScan None (Some 1))) = None
   \<and> maxReactionsAdds (args (budgetScan None (Some 1))) = Some 1
   \<and> mirrorReactionsForMessage (pagedClient twoPages (always rocketMessage) (Succeeds ()))
        ''C1'' ''1.0'' ''U9'' (plainSkipCfg ''U9'') (exactFilter {}) False []
      = (Returned \<lparr>added = 1, skippedAlreadyReacted = 0, skippedOwnMessage = 0,
           skippedBlacklisted = 0\<rparr>,
         [ReactionsGet ''C1'' ''1.0'', ReactionsAdd ''rocket'' ''C1'' ''1.0'',
          LogAdded ''rocket'' ''C1'' ''1.0''])
   \<and> messagesLoop 5 (pagedClient twoPages (always rocketMessage) (Succeeds ()))
        (budgetScan None (Some 1)) [stamped ''1.0'' rocketMessage, stamped ''2.0'' rocketMessage]
        initialState
      = (Break, \<lparr>cursor = None, processedMessages = 1, totalAdds = 1, totalSkipped = 0,
           totalSkippedOwn = 0, totalSkippedHasReactions = 0, totalSkippedBlacklisted = 0,
           trace = [ReactionsGet ''C1'' ''1.0'', ReactionsAdd ''rocket'' ''C1'' ''1.0'',
             LogAdded ''rocket'' ''C1'' ''1.0'']\<rparr>)
   \<and> mainLoop (Suc 4) 5 (pagedClient twoPages (always rocketMessage) (Succeeds ()))
        (budgetScan None (Some 1)) initialState
      = (Next, \<lparr>cursor = None, processedMessages = 1, totalAdds = 1, totalSkipped = 0,
           totalSkippedOwn = 0, totalSkippedHasReactions = 0, totalSkippedBlacklisted = 0,
           trace = [ConversationsHistory ''C1'' None None None, ReactionsGet ''C1'' ''1.0'',
             ReactionsAdd ''rocket'' ''C1'' ''1.0'', LogAdded ''rocket'' ''C1'' ''1.0'']\<rparr>)
   \<and> addsReached (budgetScan None (Some 1))
        (snd (mainLoop 5 5 (pagedClient twoPages (always rocketMessage) (Succeeds ()))
          (budgetScan None (Some 1)) initialState))
   \<and> fst (mainLoop 5 5 (pagedClient twoPages (always rocketMessage) (Succeeds ()))
        (budgetScan None (Some 1)) initialState) = Next
   \<and> cursor (snd (mainLoop 5 5 (pagedClient twoPages (always rocketMessage) (Succeeds ()))
        (budgetScan None (Some 1)) initialState)) = None
   \<and> \<not> includeThreadReplies (args (defaultsScan (Some 1)))
   \<and> addDefaultReactions (args (defaultsScan (Some 1)))
   \<and> maxReactionsAdds (args (defaultsScan (Some 1))) = Some 1
   \<and> messagesLoop 5 (pagedClient twoPages (always plainMessage) (Succeeds ()))
        (defaultsScan (Some 1)) [stamped ''1.0'' plainMessage, stamped ''2.0'' plainMessage]
        initialState
      = (Break, \<lparr>cursor = None, processedMessages = 1, totalAdds = 4, totalSkipped = 0,
           totalSkippedOwn = 0, totalSkippedHasReactions = 0, totalSkippedBlacklisted = 0,
           trace = [ReactionsGet ''C1'' ''1.0'', ReactionsAdd ''rocket'' ''C1'' ''1.0'',
             LogAddedDefault ''rocket'' ''C1'' ''1.0'',
             ReactionsAdd ''raised_hands'' ''C1'' ''1.0'',
             LogAddedDefault ''raised_hands'' ''C1'' ''1.0'',
             ReactionsAdd ''saluting_face'' ''C1'' ''1.0'',
             LogAddedDefault ''saluting_face'' ''C1'' ''1.0'',
             ReactionsAdd ''v'' ''C1'' ''1.0'', LogAddedDefault ''v'' ''C1'' ''1.0'']\<rparr>)
   \<and> \<not> includeThreadReplies (args (budgetScan (Some 1) None))
   \<and> maxMessages (args (budgetScan (Some 1) None)) = Some 1
   \<and> 1 \<le> int (processedMessages (initialState\<lparr>processedMessages := 1\<rparr>))
   \<and> tsOf (stamped ''2.0'' rocketMessage) \<noteq> []
   \<and> messagesLoop 5 (pagedClient twoPages (always rocketMessage) (Succeeds ()))
        (budgetScan (Some 1) None) [stamped ''2.0'' rocketMessage, stamped ''3.0'' rocketMessage]
        (initialState\<lparr>processedMessages := 1\<rparr>)
      = (Break, initialState\<lparr>processedMessages := 2, cursor := None\<rparr>)
   \<and> fst (messagesLoop 5 (pagedClient twoPages (always rocketMessage) (Succeeds ()))
        (budgetScan (Some 1) None) [stamped ''1.0'' rocketMessage] initialState) = Next
   \<and> \<not> messagesExceeded (budgetScan (Some 1) None)
        (snd (messagesLoop 5 (pagedClient twoPages (always rocketMessage) (Succeeds ()))
          (budgetScan (Some 1) None) [stamped ''1.0'' rocketMessage] initialState))
   \<and> int (processedMessages (snd (mainLoop 5 5 (pagedClient twoPages (always rocketMessage) (Succeeds ()))
        (budgetScan (Some 1) None) initialState))) \<le> 1 + 1"
proof -
  let ?A = "budgetScan None (Some 1)"
  let ?B = "budgetScan (Some 1) None"
  let ?D = "defaultsScan (Some 1)"
  let ?cl = "pagedClient twoPages (always rocketMessage) (Succeeds ())"
  let ?clP = "pagedClient twoPages (always plainMessage) (Succeeds ())"
  let ?m = "stamped ''1.0'' rocketMessage"
  let ?p = "stamped ''1.0'' plainMessage"
  let ?r = "\<lparr>added = 1, skippedAlreadyReacted = 0, skippedOwnMessage = 0, skippedBlacklisted = 0\<rparr>"
  let ?tr = "[ReactionsGet ''C1'' ''1.0'', ReactionsAdd ''rocket'' ''C1'' ''1.0'',
          LogAdded ''rocket'' ''C1'' ''1.0'']"
  let ?d = "\<lparr>added = 4, skippedAlreadyReacted = 0, skippedOwnMessage = 0, skippedBlacklisted = 0,
      skippedHasReactions = 0\<rparr>"
  let ?trD = "[ReactionsGet ''C1'' ''1.0'', ReactionsAdd ''rocket'' ''C1'' ''1.0'',
             LogAddedDefault ''rocket'' ''C1'' ''1.0'',
             ReactionsAdd ''raised_hands'' ''C1'' ''1.0'',
             LogAddedDefault ''raised_hands'' ''C1'' ''1.0'',
             ReactionsAdd ''saluting_face'' ''C1'' ''1.0'',
             LogAddedDefault ''saluting_face'' ''C1'' ''1.0'',
             ReactionsAdd ''v'' ''C1'' ''1.0'', LogAddedDefault ''v'' ''C1'' ''1.0'']"
  let ?end = "\<lparr>cursor = None, processedMessages = 1, totalAdds = 1, totalSkipped = 0,
           totalSkippedOwn = 0, totalSkippedHasReactions = 0, totalSkippedBlacklisted = 0,
           trace = [ConversationsHistory ''C1'' None None None, ReactionsGet ''C1'' ''1.0'',
             ReactionsAdd ''rocket'' ''C1'' ''1.0'', LogAdded ''rocket'' ''C1'' ''1.0'']\<rparr>"
  have a0: "\<not> includeThreadReplies (args ?A)" "maxMessages (args ?A) = None"
    "maxReactionsAdds (args ?A) = Some 1"
    by (simp_all add: budgetScan_def)
  have a1: "tsOf ?m \<noteq> []" "reactionsOf ?m \<noteq> []" "\<not> skip (shouldSkipMessage ?m (skipCfg ?A))"
    by code_simp+
  have a2: "\<not> messagesExceeded ?A (initialState\<lparr>processedMessages := processedMessages initialState + 1\<rparr>)"
    by (simp add: messagesExceeded_def budgetScan_def)
  have a3: "mirrorReactionsForMessage ?cl ''C1'' ''1.0'' ''U9'' (plainSkipCfg ''U9'') (exactFilter {})
      False [] = (Returned ?r, ?tr)"
    by code_simp
  have a4: "mirrorReactionsForMessage ?cl (scanChannel ?A) (tsOf ?m) (authedUserId ?A) (skipCfg ?A)
      (reactionFilterCfg ?A) (dryRun (args ?A)) (trace initialState) = (Returned ?r, ?tr)"
    by code_simp
  have a5: "(1::int) \<le> int (totalAdds initialState + added ?r)" by simp
  note TA = backfill_budgets_tested_between_messages[OF a0(1),
      where tf = 5 and cl = ?cl and m = ?m and rest = "[stamped ''2.0'' rocketMessage]"
        and sA = initialState and r = ?r and tr = ?tr and k = 1
        and sH = initialState and res = "twoPages None" and sE = ?end and f = 4
        and sI = initialState and h = 5]
  from TA a0 a1 a2 a4 a5
  have "messagesLoop 5 ?cl ?A [?m, stamped ''2.0'' rocketMessage] initialState
      = (Break, (countMirror (initialState\<lparr>processedMessages := processedMessages initialState + 1\<rparr>) ?r ?tr)
                  \<lparr>cursor := None\<rparr>)"
    by blast
  then have A1: "messagesLoop 5 ?cl ?A [?m, stamped ''2.0'' rocketMessage] initialState
      = (Break, \<lparr>cursor = None, processedMessages = 1, totalAdds = 1, totalSkipped = 0,
           totalSkippedOwn = 0, totalSkippedHasReactions = 0, totalSkippedBlacklisted = 0,
           trace = ?tr\<rparr>)"
    by (simp add: countMirror_def initialState_def)
  have a6: "withRateLimitRetry (conversations_history ?cl (trace initialState) (scanChannel ?A)
      (scanOldest ?A) (scanLatest ?A) (cursor initialState)) = Returned (twoPages None)"
    by (simp add: pagedClient_def initialState_def)
  have a7: "messagesLoop 5 ?cl ?A (messages (twoPages None))
        (initialState\<lparr>cursor := orUndefined (next_cursor (twoPages None)),
           trace := trace initialState @ [ConversationsHistory (scanChannel ?A) (scanOldest ?A)
             (scanLatest ?A) (cursor initialState)]\<rparr>) = (Break, ?end)"
    by code_simp
  from TA a6 a7 have A2: "mainLoop (Suc 4) 5 ?cl ?A initialState = (Next, ?end)"
    by blast
  have a8: "\<not> addsReached ?A initialState" by (simp add: addsReached_def budgetScan_def initialState_def)
  have a9: "addsReached ?A (snd (mainLoop 5 5 ?cl ?A initialState))" by code_simp
  from TA a8 a9 have A3: "fst (mainLoop 5 5 ?cl ?A initialState) = Next"
    "cursor (snd (mainLoop 5 5 ?cl ?A initialState)) = None"
    by blast+
  have d0: "\<not> includeThreadReplies (args ?D)" "addDefaultReactions (args ?D)"
    "maxReactionsAdds (args ?D) = Some 1"
    by (simp_all add: defaultsScan_def budgetScan_def)
  have d1: "tsOf ?p \<noteq> []" "reactionsOf ?p = []" "\<not> skip (shouldSkipMessage ?p (skipCfg ?D))"
    by code_simp+
  have d2: "\<not> messagesExceeded ?D (initialState\<lparr>processedMessages := processedMessages initialState + 1\<rparr>)"
    by (simp add: messagesExceeded_def defaultsScan_def budgetScan_def)
  have d4: "addDefaultReactionsForMessage ?clP (scanChannel ?D) (tsOf ?p) (defaultReactionNames ?D)
      (skipCfg ?D) (reactionFilterCfg ?D) (dryRun (args ?D)) (trace initialState) = (Returned ?d, ?trD)"
    by code_simp
  have d5: "(1::int) \<le> int (totalAdds initialState + added ?d)" by simp
  note TD = backfill_budgets_tested_between_messages[OF d0(1),
      where tf = 5 and cl = ?clP and m = ?p and rest = "[stamped ''2.0'' plainMessage]"
        and sD = initialState and d = ?d and trD = ?trD and k = 1]
  from TD d0 d1 d2 d4 d5
  have "messagesLoop 5 ?clP ?D [?p, stamped ''2.0'' plainMessage] initialState
      = (Break, (countDefault (initialState\<lparr>processedMessages := processedMessages initialState + 1\<rparr>) ?d ?trD)
                  \<lparr>cursor := None\<rparr>)"
    by blast
  then have D1: "messagesLoop 5 ?clP ?D [?p, stamped ''2.0'' plainMessage] initialState
      = (Break, \<lparr>cursor = None, processedMessages = 1, totalAdds = 4, totalSkipped = 0,
           totalSkippedOwn = 0, totalSkippedHasReactions = 0, totalSkippedBlacklisted = 0,
           trace = ?trD\<rparr>)"
    by (simp add: countDefault_def initialState_def)
  let ?one = "messagesLoop 5 ?cl ?B [?m] initialState"
  have b0: "\<not> includeThreadReplies (args ?B)" "maxMessages (args ?B) = Some 1"
    by (simp_all add: budgetScan_def)
  have b1: "1 \<le> int (processedMessages (initialState\<lparr>processedMessages := 1\<rparr>))" by simp
  have b2: "tsOf (stamped ''2.0'' rocketMessage) \<noteq> []" by code_simp
  have b3: "fst ?one = Next" by code_simp
  then have b3': "?one = (Next, snd ?one)" by (metis prod.collapse)
  have b4: "processedMessages (snd ?one) \<noteq> processedMessages initialState" by code_simp
  have b5: "int (processedMessages initialState) \<le> 1" by (simp add: initialState_def)
  note TB = backfill_budgets_tested_between_messages[OF b0(1),
      where tf = 5 and cl = ?cl and m = "stamped ''2.0'' rocketMessage"
        and rest = "[stamped ''3.0'' rocketMessage]"
        and sM = "initialState\<lparr>processedMessages := 1\<rparr>" and n = 1
        and pre = "[?m]" and sP = initialState and sQ = "snd ?one"
        and g = 5 and sF = initialState]
  from TB b0 b1 b2
  have B1: "messagesLoop 5 ?cl ?B [stamped ''2.0'' rocketMessage, stamped ''3.0'' rocketMessage]
        (initialState\<lparr>processedMessages := 1\<rparr>)
      = (Break, initialState\<lparr>processedMessages := 2, cursor := None\<rparr>)"
    by simp
  from TB b3' b4 have B2: "\<not> messagesExceeded ?B (snd ?one)" by blast
  from TB b0 b5 have B3: "int (processedMessages (snd (mainLoop 5 5 ?cl ?B initialState))) \<le> 1 + 1"
    by blast
  from a0 a3 A1 A2 a9 A3 d0 D1 b0 b1 b2 B1 b3 B2 B3 show ?thesis by blast
qed

text \<open>
  C7 (as the code behaves): for the event \<open>raised_hands::skin-tone-3\<close> from account \<open>U3\<close> on a
  message of account \<open>U2\<close> that no rule skips and the acting account \<open>U1\<close> has not reacted to,
  the handler acknowledges, fetches the message and issues exactly one \<open>reactions.add\<close>, but
  with the name \<open>raised_hands::skin-tone-3\<close>, not with \<open>raised_hands\<close>.
\<close>

theorem live_event_adds_variant_name:
  "onEventsApi (constClient skinToneMessage (Succeeds ())) ''U1'' None (plainSkipCfg ''U1'')
     (exactFilter {}) skinToneEvent []
   = (Returned (), [Ack, ReactionsGet ''C1'' ''1.0'',
        ReactionsAdd ''raised_hands::skin-tone-3'' ''C1'' ''1.0'',
        LogAdded ''raised_hands::skin-tone-3'' ''C1'' ''1.0''])"
  by code_simp

text \<open>
  C8 (as the code behaves): the epoch-seconds string \<open>1735689600\<close> is not returned as it is,
  since the first expression asks for a backslash: it is handed to \<open>Date.parse\<close>, and with a
  host that does not read it as a date \<open>parseTime\<close> raises the error \<open>Invalid time\<close>. The
  bare date \<open>2026-01-29\<close> is handed to \<open>Date.parse\<close> as it is, without \<open>T00:00:00Z\<close>.
\<close>

theorem parseTime_epoch_seconds_not_returned:
  "parseTime dateParse ''1735689600''
     = (case dateParse ''1735689600'' of
          None \<Rightarrow> Inl (InvalidTime ''1735689600'')
        | Some ms \<Rightarrow> Inr (secondsString ms))
   \<and> parseTime parsesNothing ''1735689600'' = Inl (InvalidTime ''1735689600'')
   \<and> parseTime dateParse ''2026-01-29''
     = (case dateParse ''2026-01-29'' of
          None \<Rightarrow> Inl (InvalidTime ''2026-01-29'')
        | Some ms \<Rightarrow> Inr (secondsString ms))"
  by (simp add: parseTime_def trim_def isSpace_def numeric_not_matched Let_def parsesNothing_def)

text \<open>
  C9 (as the code behaves): when \<open>reactions.add\<close> fails with \<open>too_many_reactions\<close>, the live
  handler logs the skip and returns; \<open>mirrorReactionsForMessage\<close> and
  \<open>addDefaultReactionsForMessage\<close> throw the error on, the remaining names of the message are
  never tried, and the backfill scan ends with that error before it fetches its second page.
\<close>

theorem too_many_reactions_ends_backfill:
  "onEventsApi (constClient skinToneMessage (Fails (Thrown (Some ''too_many_reactions'')))) ''U1'' None
     (plainSkipCfg ''U1'') (exactFilter {}) skinToneEvent []
   = (Returned (), [Ack, ReactionsGet ''C1'' ''1.0'',
        ReactionsAdd ''raised_hands::skin-tone-3'' ''C1'' ''1.0'',
        LogTooManyReactions ''C1'' ''1.0'' ''raised_hands::skin-tone-3''])
   \<and> mirrorReactionsForMessage (constClient reactedMessage (Fails (Thrown (Some ''too_many_reactions''))))
       ''C1'' ''1.0'' ''U9'' (plainSkipCfg ''U9'') (exactFilter {}) False []
     = (Threw (Thrown (Some ''too_many_reactions'')),
        [ReactionsGet ''C1'' ''1.0'', ReactionsAdd ''rocket'' ''C1'' ''1.0''])
   \<and> addDefaultReactionsForMessage (constClient plainMessage (Fails (Thrown (Some ''too_many_reactions''))))
       ''C1'' ''1.0'' [''rocket'', ''v''] (plainSkipCfg ''U9'') (exactFilter {}) False []
     = (Threw (Thrown (Some ''too_many_reactions'')),
        [ReactionsGet ''C1'' ''1.0'', ReactionsAdd ''rocket'' ''C1'' ''1.0''])
   \<and> mainLoop 5 5 (pagedClient twoPages (always rocketMessage) (Fails (Thrown (Some ''too_many_reactions''))))
        (budgetScan None None) initialState
      = (Raise (Thrown (Some ''too_many_reactions'')),
         \<lparr>cursor = Some ''p2'', processedMessages = 1, totalAdds = 0, totalSkipped = 0,
           totalSkippedOwn = 0, totalSkippedHasReactions = 0, totalSkippedBlacklisted = 0,
           trace = [ConversationsHistory ''C1'' None None None, ReactionsGet ''C1'' ''1.0'',
             ReactionsAdd ''rocket'' ''C1'' ''1.0'']\<rparr>)"
  by code_simp

end
